theory Spec2Isabelle
  imports Complex_Main "HOL-Library.Multiset"
begin

section \<open>JavaScript values used by the ranking engine\<close>

text \<open>
  The engine of \<^verbatim>\<open>src/plugin/scripts/utils.js\<close> computes with JavaScript Numbers.
  A Number is modelled as a mathematical real or as \<^verbatim>\<open>NaN\<close>: arithmetic is exact,
  rounding and the infinities of IEEE doubles are left out, and every operation with a
  \<^verbatim>\<open>NaN\<close> operand gives \<^verbatim>\<open>NaN\<close>, as in the language. The inputs are typed as the
  engine expects them (strings, lists, records); the limits of the machine, such as the
  number of arguments a spread call \<^verbatim>\<open>push(...words)\<close> can pass, are not modelled.
\<close>

datatype jsnum = Num real | NaN

fun jsmul :: "jsnum \<Rightarrow> jsnum \<Rightarrow> jsnum" where
  "jsmul (Num x) (Num y) = Num (x * y)"
| "jsmul _ _ = NaN"

fun jsadd :: "jsnum \<Rightarrow> jsnum \<Rightarrow> jsnum" where
  "jsadd (Num x) (Num y) = Num (x + y)"
| "jsadd _ _ = NaN"

text \<open>\<^verbatim>\<open>Math.max(a, b)\<close> and \<^verbatim>\<open>Math.min(a, b)\<close>: \<^verbatim>\<open>NaN\<close> if either argument is.\<close>

fun Math_max :: "jsnum \<Rightarrow> jsnum \<Rightarrow> jsnum" where
  "Math_max (Num x) (Num y) = Num (max x y)"
| "Math_max _ _ = NaN"

fun Math_min :: "jsnum \<Rightarrow> jsnum \<Rightarrow> jsnum" where
  "Math_min (Num x) (Num y) = Num (min x y)"
| "Math_min _ _ = NaN"

text \<open>
  The comparisons \<^verbatim>\<open>a >= b\<close> and \<^verbatim>\<open>a === 0\<close> on Numbers: false whenever an operand
  is \<^verbatim>\<open>NaN\<close>.
\<close>

fun js_ge :: "jsnum \<Rightarrow> jsnum \<Rightarrow> bool" where
  "js_ge (Num x) (Num y) = (y \<le> x)"
| "js_ge _ _ = False"

fun is_zero :: "jsnum \<Rightarrow> bool" where
  "is_zero (Num x) = (x = 0)"
| "is_zero NaN = False"

section \<open>Text preprocessing\<close>

text \<open>
  A string is a list of characters; a \<^typ>\<open>char\<close> stands for the Unicode code point of
  the same number (U+0000 to U+00FF), each one UTF-16 code unit, so that \<^verbatim>\<open>length\<close> is
  the source's \<^verbatim>\<open>.length\<close>. Text outside this range is not covered by the model. The
  Korean entries of \<^verbatim>\<open>STOPWORDS\<close> and the range \<^verbatim>\<open>\uAC00-\uD7A3\<close> of the pattern in
  \<^verbatim>\<open>extractKeywords\<close> lie outside it: no string of the model equals or contains one of
  them, so they are left out.
\<close>

definition STOPWORDS :: "string list" where
  "STOPWORDS =
    [''the'', ''a'', ''an'', ''is'', ''are'', ''was'', ''were'', ''be'', ''been'', ''being'',
     ''have'', ''has'', ''had'', ''do'', ''does'', ''did'', ''will'', ''would'', ''could'', ''should'',
     ''may'', ''might'', ''must'', ''shall'', ''can'', ''need'', ''dare'', ''ought'', ''used'',
     ''to'', ''of'', ''in'', ''for'', ''on'', ''with'', ''at'', ''by'', ''from'', ''as'', ''into'',
     ''through'', ''during'', ''before'', ''after'', ''above'', ''below'', ''between'',
     ''and'', ''but'', ''or'', ''nor'', ''so'', ''yet'', ''both'', ''either'', ''neither'',
     ''not'', ''only'', ''own'', ''same'', ''than'', ''too'', ''very'', ''just'',
     ''this'', ''that'', ''these'', ''those'', ''it'', ''its'',
     ''const'', ''let'', ''var'', ''function'', ''return'', ''import'', ''export'', ''from'',
     ''true'', ''false'', ''null'', ''undefined'', ''new'', ''class'', ''extends'',
     ''async'', ''await'', ''try'', ''catch'', ''if'', ''else'', ''for'', ''while'']"

text \<open>The character classes of the patterns: \<^verbatim>\<open>[A-Z]\<close>, \<^verbatim>\<open>[a-z]\<close>, \<^verbatim>\<open>\d\<close>, \<^verbatim>\<open>\w\<close>, \<^verbatim>\<open>\s\<close>.\<close>

definition isUpper :: "char \<Rightarrow> bool" where
  "isUpper c = (65 \<le> (of_char c :: nat) \<and> (of_char c :: nat) \<le> 90)"

definition isLower :: "char \<Rightarrow> bool" where
  "isLower c = (97 \<le> (of_char c :: nat) \<and> (of_char c :: nat) \<le> 122)"

definition isDigit :: "char \<Rightarrow> bool" where
  "isDigit c = (48 \<le> (of_char c :: nat) \<and> (of_char c :: nat) \<le> 57)"

definition isWord :: "char \<Rightarrow> bool" where
  "isWord c = (isUpper c \<or> isLower c \<or> isDigit c \<or> c = CHR ''_'')"

definition isSpace :: "char \<Rightarrow> bool" where
  "isSpace c = ((of_char c :: nat) \<in> {9, 10, 11, 12, 13, 32, 160})"

text \<open>
  \<^verbatim>\<open>toLowerCase()\<close> on this range: the letters A to Z, and the letters U+00C0 to U+00DE
  except the multiplication sign U+00D7, move up by 32.
\<close>

definition toLowerChar :: "char \<Rightarrow> char" where
  "toLowerChar c =
    (let n = (of_char c :: nat)
     in if (65 \<le> n \<and> n \<le> 90) \<or> (192 \<le> n \<and> n \<le> 222 \<and> n \<noteq> 215)
        then char_of (n + 32) else c)"

definition toLowerCase :: "string \<Rightarrow> string" where
  "toLowerCase s = map toLowerChar s"

text \<open>\<^verbatim>\<open>.replace(/\s+/g, ' ')\<close>: every maximal run of white space becomes one space.\<close>

fun collapse :: "bool \<Rightarrow> string \<Rightarrow> string" where
  "collapse inRun [] = []"
| "collapse inRun (c # cs) =
    (if isSpace c then (if inRun then collapse True cs else CHR '' '' # collapse True cs)
     else c # collapse False cs)"

definition trim :: "string \<Rightarrow> string" where
  "trim s = rev (dropWhile isSpace (rev (dropWhile isSpace s)))"

text \<open>
  \<^verbatim>\<open>s.split(sep)\<close> for a one-character separator: the pieces between the separators,
  empty pieces included; the empty string gives one empty piece.
\<close>

fun split :: "char \<Rightarrow> string \<Rightarrow> string list" where
  "split sep [] = [[]]"
| "split sep (c # cs) =
    (if c = sep then [] # split sep cs
     else (case split sep cs of [] \<Rightarrow> [[c]] | w # ws \<Rightarrow> (c # w) # ws))"

text \<open>
  \<^verbatim>\<open>extractKeywords(text)\<close>. The argument is \<open>None\<close> for a missing (undefined or null)
  field; \<^verbatim>\<open>!text\<close> holds for it and for the empty string.
\<close>

definition keepKeyword :: "string \<Rightarrow> bool" where
  "keepKeyword word =
    (if length word < 2 then False
     else if word \<in> set STOPWORDS then False
     else if word \<noteq> [] \<and> list_all isDigit word then False
     else True)"

fun extractKeywords :: "string option \<Rightarrow> string list" where
  "extractKeywords None = []"
| "extractKeywords (Some text) =
    (if text = [] then []
     else
       let normalized =
             trim (collapse False
               (map (\<lambda>c. if isWord c \<or> isSpace c then c else CHR '' '') (toLowerCase text)));
           words = split (CHR '' '') normalized
       in filter keepKeyword words)"

text \<open>
  \<^verbatim>\<open>part.replace(/\.[^.]+$/, '')\<close>: the text from the last dot on is removed when at
  least one character follows that dot.
\<close>

definition stripExtension :: "string \<Rightarrow> string" where
  "stripExtension part =
    (let ext = takeWhile (\<lambda>c. c \<noteq> CHR ''.'') (rev part)
     in if length ext < length part \<and> ext \<noteq> []
        then take (length part - length ext - 1) part else part)"

text \<open>
  \<^verbatim>\<open>part.replace(/([a-z])([A-Z])/g, '$1 $2')\<close>: a space goes between a lower-case
  letter and an upper-case letter that follows it.
\<close>

fun camelSplit :: "string \<Rightarrow> string" where
  "camelSplit (a # b # cs) =
    (if isLower a \<and> isUpper b then a # CHR '' '' # camelSplit (b # cs)
     else a # camelSplit (b # cs))"
| "camelSplit cs = cs"

text \<open>
  \<^verbatim>\<open>s.split(/[-_\s]+/)\<close>: the pieces between the maximal runs of separators; a run at
  the start or at the end leaves an empty piece there.
\<close>

definition isSeparator :: "char \<Rightarrow> bool" where
  "isSeparator c = (c = CHR ''-'' \<or> c = CHR ''_'' \<or> isSpace c)"

fun splitRuns :: "bool \<Rightarrow> string \<Rightarrow> string list" where
  "splitRuns inRun [] = [[]]"
| "splitRuns inRun (c # cs) =
    (if isSeparator c then (if inRun then splitRuns True cs else [] # splitRuns True cs)
     else (case splitRuns False cs of [] \<Rightarrow> [[c]] | w # ws \<Rightarrow> (c # w) # ws))"

definition pathWords :: "string \<Rightarrow> string list" where
  "pathWords part =
    filter (\<lambda>w. length w > 1 \<and> w \<notin> set STOPWORDS)
      (splitRuns False (toLowerCase (camelSplit part)))"

fun extractPathKeywords :: "string option \<Rightarrow> string list" where
  "extractPathKeywords None = []"
| "extractPathKeywords (Some filePath) =
    (if filePath = [] then []
     else
       let parts =
             filter (\<lambda>part. part \<noteq> [] \<and> length part > 1)
               (map stripExtension
                 (split (CHR ''/'')
                   (map (\<lambda>c. if c = CHR 0x5C then CHR ''/'' else c) filePath)))
       in concat (map pathWords parts))"

section \<open>Plain objects used as dictionaries\<close>

text \<open>
  \<^verbatim>\<open>calculateTF\<close>, \<^verbatim>\<open>calculateDF\<close> and \<^verbatim>\<open>calculateTFIDF\<close> keep their tables in object
  literals \<^verbatim>\<open>{}\<close>. Such an object has its own properties, here an association list in
  insertion order, and inherits the properties of \<^verbatim>\<open>Object.prototype\<close>. Reading
  \<^verbatim>\<open>obj[word]\<close> therefore has three outcomes: an own value, an inherited value (a native
  function, or the prototype object itself for \<^verbatim>\<open>__proto__\<close>), or \<^verbatim>\<open>undefined\<close>.
  JavaScript enumerates the keys that are array indices before the others; the engine
  only adds up over the keys, and the sums of real numbers do not depend on the order, so
  the list keeps the order of insertion for all keys.
\<close>

definition objectPrototype :: "string list" where
  "objectPrototype =
    [''constructor'', ''hasOwnProperty'', ''isPrototypeOf'', ''propertyIsEnumerable'',
     ''toLocaleString'', ''toString'', ''valueOf'', ''__proto__'',
     ''__defineGetter__'', ''__defineSetter__'', ''__lookupGetter__'', ''__lookupSetter__'']"

datatype 'v lookup = Own 'v | Inherited | Undefined

definition get :: "(string \<times> 'v) list \<Rightarrow> string \<Rightarrow> 'v lookup" where
  "get obj word =
    (case map_of obj word of
       Some v \<Rightarrow> Own v
     | None \<Rightarrow> if word \<in> set objectPrototype then Inherited else Undefined)"

text \<open>
  The assignment \<^verbatim>\<open>obj[word] = v\<close> of a primitive value \<open>v\<close>: it replaces the own value
  in place, or appends a new own property. For \<^verbatim>\<open>__proto__\<close> the inherited setter is
  called, which ignores every value that is neither an object nor null, so nothing changes.
\<close>

fun assign :: "(string \<times> 'v) list \<Rightarrow> string \<Rightarrow> 'v \<Rightarrow> (string \<times> 'v) list" where
  "assign [] word v = [(word, v)]"
| "assign ((k, u) # obj) word v =
    (if k = word then (k, v) # obj else (k, u) # assign obj word v)"

definition put :: "(string \<times> 'v) list \<Rightarrow> string \<Rightarrow> 'v \<Rightarrow> (string \<times> 'v) list" where
  "put obj word v = (if word = ''__proto__'' then obj else assign obj word v)"

text \<open>
  The value held by a counter \<^verbatim>\<open>tf[word]\<close> or \<^verbatim>\<open>df[word]\<close>: a count, or the string that
  \<^verbatim>\<open>+ 1\<close> builds from an inherited value (the source text of a native function, or
  \<^verbatim>\<open>[object Object]\<close>, followed by \<^verbatim>\<open>1\<close>). Such a string is truthy and converts to the
  Number \<^verbatim>\<open>NaN\<close>; its text is not needed and not kept.
\<close>

datatype count = Count nat | Junk

text \<open>\<^verbatim>\<open>(obj[word] || 0) + 1\<close>\<close>

fun incr :: "count lookup \<Rightarrow> count" where
  "incr (Own (Count n)) = Count (n + 1)"
| "incr (Own Junk) = Junk"
| "incr Inherited = Junk"
| "incr Undefined = Count 1"

definition bump :: "(string \<times> count) list \<Rightarrow> string \<Rightarrow> (string \<times> count) list" where
  "bump obj word = put obj word (incr (get obj word))"

fun toNumber :: "count \<Rightarrow> jsnum" where
  "toNumber (Count n) = Num (real n)"
| "toNumber Junk = NaN"

section \<open>TF-IDF\<close>

text \<open>
  \<^verbatim>\<open>calculateTF(keywords)\<close>: count every word, then divide every count by
  \<^verbatim>\<open>Math.max(...Object.values(tf), 1)\<close>. The second loop runs over the own keys of
  \<^verbatim>\<open>tf\<close> and overwrites each value in place.
\<close>

definition maxFreq :: "(string \<times> count) list \<Rightarrow> jsnum" where
  "maxFreq tf = foldl Math_max (Num 1) (map (toNumber \<circ> snd) tf)"

fun normalize :: "jsnum \<Rightarrow> count \<Rightarrow> jsnum" where
  "normalize (Num m) (Count n) = Num (real n / m)"
| "normalize _ _ = NaN"

definition calculateTF :: "string list \<Rightarrow> (string \<times> jsnum) list" where
  "calculateTF keywords =
    (let tf = foldl bump [] keywords;
         m = maxFreq tf
     in map (\<lambda>(word, c). (word, normalize m c)) tf)"

text \<open>
  \<^verbatim>\<open>calculateDF(documents)\<close>: every document counts each of its distinct words once;
  \<^verbatim>\<open>new Set(doc)\<close> iterates in the order of first occurrence.
\<close>

fun uniqueWords :: "string list \<Rightarrow> string list" where
  "uniqueWords [] = []"
| "uniqueWords (w # ws) = w # filter (\<lambda>v. v \<noteq> w) (uniqueWords ws)"

definition calculateDF :: "string list list \<Rightarrow> (string \<times> count) list" where
  "calculateDF documents = foldl (\<lambda>df doc. foldl bump df (uniqueWords doc)) [] documents"

text \<open>
  \<^verbatim>\<open>calculateTFIDF(keywords, df, totalDocs)\<close>. The inverse document frequency is
  \<^verbatim>\<open>Math.log((totalDocs + 1) / ((df[word] || 0) + 1)) + 1\<close>; the divisor is a count of at
  least 1, or a string, and then the quotient is \<^verbatim>\<open>NaN\<close>. The keys of \<^verbatim>\<open>tf\<close> are own keys,
  so the loop writes one own property of \<^verbatim>\<open>tfidf\<close> per key, in the same order.
\<close>

fun idf :: "count \<Rightarrow> nat \<Rightarrow> jsnum" where
  "idf (Count d) totalDocs = Num (ln ((real totalDocs + 1) / real d) + 1)"
| "idf Junk totalDocs = NaN"

definition calculateTFIDF ::
  "string list \<Rightarrow> (string \<times> count) list \<Rightarrow> nat \<Rightarrow> (string \<times> jsnum) list" where
  "calculateTFIDF keywords df totalDocs =
    foldl (\<lambda>tfidf (word, t). put tfidf word (jsmul t (idf (incr (get df word)) totalDocs)))
      [] (calculateTF keywords)"

section \<open>Cosine similarity\<close>

text \<open>
  \<^verbatim>\<open>vec[word] || 0\<close>, as the Number the products use: an own \<^verbatim>\<open>NaN\<close> or zero and a
  missing key give 0; an inherited function is truthy, is kept, and converts to \<^verbatim>\<open>NaN\<close>.
\<close>

fun or0 :: "jsnum lookup \<Rightarrow> jsnum" where
  "or0 (Own (Num x)) = Num x"
| "or0 (Own NaN) = Num 0"
| "or0 Undefined = Num 0"
| "or0 Inherited = NaN"

record totals =
  dotProduct :: jsnum
  norm1 :: jsnum
  norm2 :: jsnum

definition accumulate ::
  "(string \<times> jsnum) list \<Rightarrow> (string \<times> jsnum) list \<Rightarrow> totals \<Rightarrow> string \<Rightarrow> totals" where
  "accumulate vec1 vec2 s word =
    (let v1 = or0 (get vec1 word);
         v2 = or0 (get vec2 word)
     in \<lparr> dotProduct = jsadd (dotProduct s) (jsmul v1 v2),
          norm1 = jsadd (norm1 s) (jsmul v1 v1),
          norm2 = jsadd (norm2 s) (jsmul v2 v2) \<rparr>)"

text \<open>
  After the guard both norms are non-zero; as sums of squares they are positive, so
  \<^verbatim>\<open>Math.sqrt\<close> is the real square root and the divisor is not zero.
\<close>

fun ratio :: "jsnum \<Rightarrow> jsnum \<Rightarrow> jsnum \<Rightarrow> jsnum" where
  "ratio (Num d) (Num a) (Num b) = Num (d / (sqrt a * sqrt b))"
| "ratio _ _ _ = NaN"

definition cosineSimilarity :: "(string \<times> jsnum) list \<Rightarrow> (string \<times> jsnum) list \<Rightarrow> jsnum" where
  "cosineSimilarity vec1 vec2 =
    (let allWords = uniqueWords (map fst vec1 @ map fst vec2);
         s = foldl (accumulate vec1 vec2) \<lparr> dotProduct = Num 0, norm1 = Num 0, norm2 = Num 0 \<rparr> allWords
     in if is_zero (norm1 s) \<or> is_zero (norm2 s) then Num 0
        else ratio (dotProduct s) (norm1 s) (norm2 s))"

section \<open>Relevance scores\<close>

text \<open>
  A session record as the engine reads it. \<open>date\<close> is the time value
  \<^verbatim>\<open>new Date(session.date).getTime()\<close> in milliseconds, \<open>None\<close> when that is \<^verbatim>\<open>NaN\<close>
  (the field is undefined or is not a date string; a field that is null gives the time
  value 0). An optional field is \<open>None\<close> when it is missing. Whatever else a stored
  session carries is the \<open>more\<close> part of the record.
\<close>

record conversation =
  message :: "string option"

record observation =
  obs_summary :: "string option"
  details_file :: "string option"
  details_command :: "string option"
  context_lastUserMessage :: "string option"

record session =
  date :: "int option"
  summary :: "string option"
  conversations :: "conversation list option"
  observations :: "observation list option"

record currentContext =
  cwd :: "string option"
  recentFiles :: "string list option"

text \<open>The test \<^verbatim>\<open>if (field)\<close> on a string field: it is present and not empty.\<close>

fun truthy :: "string option \<Rightarrow> bool" where
  "truthy None = False"
| "truthy (Some s) = (s \<noteq> [])"

definition hasConversations :: "'a session_scheme \<Rightarrow> bool" where
  "hasConversations session =
    (case conversations session of None \<Rightarrow> False | Some convs \<Rightarrow> length convs > 0)"

definition observationKeywords :: "observation \<Rightarrow> string list" where
  "observationKeywords obs =
    extractKeywords (obs_summary obs)
    @ (if truthy (details_file obs) then extractPathKeywords (details_file obs) else [])
    @ (if truthy (details_command obs) then extractKeywords (details_command obs) else [])
    @ (if truthy (context_lastUserMessage obs)
       then extractKeywords (context_lastUserMessage obs) else [])"

definition extractSessionKeywords :: "'a session_scheme \<Rightarrow> string list" where
  "extractSessionKeywords session =
    (if truthy (summary session) then extractKeywords (summary session) else [])
    @ (if hasConversations session
       then concat (map (\<lambda>conv. if truthy (message conv) then extractKeywords (message conv) else [])
                     (the (conversations session)))
       else [])
    @ (case observations session of
         None \<Rightarrow> []
       | Some obss \<Rightarrow> concat (map observationKeywords obss))"

text \<open>
  \<^verbatim>\<open>(Date.now() - new Date(session.date).getTime()) / unit\<close>, for one reading \<open>now\<close> of
  the clock.
\<close>

fun elapsed :: "int \<Rightarrow> int option \<Rightarrow> real \<Rightarrow> jsnum" where
  "elapsed now (Some t) unit = Num (real_of_int (now - t) / unit)"
| "elapsed now None unit = NaN"

fun js_less :: "jsnum \<Rightarrow> real \<Rightarrow> bool" where
  "js_less (Num x) y = (x < y)"
| "js_less NaN y = False"

fun jsmap :: "(real \<Rightarrow> real) \<Rightarrow> jsnum \<Rightarrow> jsnum" where
  "jsmap f (Num x) = Num (f x)"
| "jsmap f NaN = NaN"

definition decay :: "jsnum \<Rightarrow> jsnum \<Rightarrow> jsnum" where
  "decay daysSinceSession hoursSinceSession =
    (if js_less hoursSinceSession 24
     then jsmap (\<lambda>h. 1.0 - h / 48) hoursSinceSession
     else jsmap (\<lambda>d. exp (- d / 14)) daysSinceSession)"

text \<open>
  \<^verbatim>\<open>similarity * 0.4 + timeWeight * 0.45 + conversationBonus\<close>. The program rounds each
  product and each sum to a double; the model adds and multiplies the exact reals.
\<close>

definition finalScore :: "jsnum \<Rightarrow> jsnum \<Rightarrow> jsnum \<Rightarrow> jsnum" where
  "finalScore sim tw bonus = jsadd (jsadd (jsmul sim (Num 0.4)) (jsmul tw (Num 0.45))) bonus"

record 'a scored =
  session :: "'a session_scheme"
  similarity :: jsnum
  timeWeight :: jsnum
  conversationBonus :: jsnum
  score :: jsnum

text \<open>
  The body of the callback of \<^verbatim>\<open>sessions.map\<close>. It reads the clock twice: \<open>nowDays\<close>
  is the reading in \<^verbatim>\<open>daysSinceSession\<close>, \<open>nowHours\<close> the later one in
  \<^verbatim>\<open>hoursSinceSession\<close>.
\<close>

definition scoreSession ::
  "(string \<times> jsnum) list \<Rightarrow> (string \<times> count) list \<Rightarrow> nat \<Rightarrow> string list \<Rightarrow> int \<Rightarrow> int
    \<Rightarrow> 'a session_scheme \<Rightarrow> 'a scored" where
  "scoreSession contextTFIDF df totalDocs sessionKeywords nowDays nowHours s =
    (let sessionTFIDF = calculateTFIDF sessionKeywords df totalDocs;
         sim = cosineSimilarity contextTFIDF sessionTFIDF;
         daysSinceSession = elapsed nowDays (date s) (1000 * 60 * 60 * 24);
         hoursSinceSession = elapsed nowHours (date s) (1000 * 60 * 60);
         tw = decay daysSinceSession hoursSinceSession;
         bonus = (if hasConversations s then Num 0.15 else Num 0)
     in \<lparr> session = s, similarity = sim, timeWeight = tw, conversationBonus = bonus,
          score = Math_min (finalScore sim tw bonus) (Num 1.0) \<rparr>)"

definition contextKeywords :: "currentContext \<Rightarrow> string list" where
  "contextKeywords ctx =
    (if truthy (cwd ctx) then extractPathKeywords (cwd ctx) else [])
    @ (case recentFiles ctx of
         None \<Rightarrow> []
       | Some files \<Rightarrow> concat (map (\<lambda>file. extractPathKeywords (Some file)) files))"

text \<open>
  The array \<^verbatim>\<open>scores\<close> before it is sorted. \<open>clock k\<close> is the value of the \<open>k\<close>-th call of
  \<^verbatim>\<open>Date.now()\<close>, counted from 0; the session at \<open>index\<close> makes the calls \<open>2 * index\<close> and
  \<open>2 * index + 1\<close>.
\<close>

definition scores :: "currentContext \<Rightarrow> 'a session_scheme list \<Rightarrow> (nat \<Rightarrow> int) \<Rightarrow> 'a scored list" where
  "scores ctx sessions clock =
    (let sessionKeywordsList = map extractSessionKeywords sessions;
         df = calculateDF (contextKeywords ctx # sessionKeywordsList);
         totalDocs = length sessions + 1;
         contextTFIDF = calculateTFIDF (contextKeywords ctx) df totalDocs
     in map (\<lambda>(index, s).
               scoreSession contextTFIDF df totalDocs (sessionKeywordsList ! index)
                 (clock (2 * index)) (clock (2 * index + 1)) s)
          (enumerate 0 sessions))"

text \<open>
  \<^verbatim>\<open>scores.sort((a, b) => b.score - a.score)\<close>. A comparator result \<^verbatim>\<open>NaN\<close> counts as
  \<^verbatim>\<open>+0\<close>. \<^verbatim>\<open>Array.prototype.sort\<close> is stable, and for a consistent comparator its result
  is the one stable sorted arrangement; it is computed here by insertion from the right,
  where an element goes in front of the first one it need not follow. When a score is
  \<^verbatim>\<open>NaN\<close> the comparator is not consistent and the language leaves the order to the
  implementation; the model then gives the order of this insertion sort.
\<close>

definition compareScores :: "'a scored \<Rightarrow> 'a scored \<Rightarrow> real" where
  "compareScores a b = (case (score b, score a) of (Num y, Num x) \<Rightarrow> y - x | _ \<Rightarrow> 0)"

fun insertSorted :: "('e \<Rightarrow> 'e \<Rightarrow> real) \<Rightarrow> 'e \<Rightarrow> 'e list \<Rightarrow> 'e list" where
  "insertSorted cmp x [] = [x]"
| "insertSorted cmp x (y # ys) =
    (if cmp x y \<le> 0 then x # y # ys else y # insertSorted cmp x ys)"

definition sortBy :: "('e \<Rightarrow> 'e \<Rightarrow> real) \<Rightarrow> 'e list \<Rightarrow> 'e list" where
  "sortBy cmp xs = foldr (insertSorted cmp) xs []"

definition calculateRelevanceScores ::
  "currentContext \<Rightarrow> 'a session_scheme list \<Rightarrow> (nat \<Rightarrow> int) \<Rightarrow> 'a scored list" where
  "calculateRelevanceScores ctx sessions clock =
    (if sessions = [] then [] else sortBy compareScores (scores ctx sessions clock))"

text \<open>A clock that does not advance during the call: every reading is \<open>now\<close>.\<close>

definition frozenClock :: "int \<Rightarrow> nat \<Rightarrow> int" where
  "frozenClock now k = now"

text \<open>
  The order the ranking is expected to have: every score is \<^verbatim>\<open>>=\<close> the score that
  follows it.
\<close>

fun nonIncreasing :: "'a scored list \<Rightarrow> bool" where
  "nonIncreasing (a # b # rest) = (js_ge (score a) (score b) \<and> nonIncreasing (b # rest))"
| "nonIncreasing rest = True"

text \<open>The real number a score holds, for scores that are not \<^verbatim>\<open>NaN\<close>.\<close>

fun theReal :: "jsnum \<Rightarrow> real" where
  "theReal (Num x) = x"
| "theReal NaN = 0"

section \<open>Notions used in the proofs\<close>

text \<open>
  The own keys of a table built from the words \<open>ws\<close>: the distinct words in the order of
  their first occurrence, without \<^verbatim>\<open>__proto__\<close>, which never becomes an own key.
\<close>

definition ownKeys :: "string list \<Rightarrow> string list" where
  "ownKeys ws = filter (\<lambda>w. w \<noteq> ''__proto__'') (uniqueWords ws)"

text \<open>
  The table that counting the words \<open>hist\<close>, one after the other, leaves behind: a word
  that names a property of \<^verbatim>\<open>Object.prototype\<close> holds a string, every other word the
  number of its occurrences.
\<close>

definition counted :: "string list \<Rightarrow> (string \<times> count) list" where
  "counted hist =
    map (\<lambda>w. (w, if w \<in> set objectPrototype then Junk else Count (count_list hist w)))
      (filter (\<lambda>w. w \<noteq> ''__proto__'') (uniqueWords hist))"

definition maxCount :: "string list \<Rightarrow> nat" where
  "maxCount ws = Max (insert 1 (count_list ws ` set (ownKeys ws)))"

text \<open>A word list is dirty when one of its own keys names a property of the prototype.\<close>

definition dirty :: "string list \<Rightarrow> bool" where
  "dirty ws = (\<exists>k\<in>set (ownKeys ws). k \<in> set objectPrototype)"

definition allWords :: "(string \<times> jsnum) list \<Rightarrow> (string \<times> jsnum) list \<Rightarrow> string list" where
  "allWords vec1 vec2 = uniqueWords (map fst vec1 @ map fst vec2)"

text \<open>The entry of a vector at a word, as the real number the sums use.\<close>

definition entry :: "(string \<times> jsnum) list \<Rightarrow> string \<Rightarrow> real" where
  "entry vec w = theReal (or0 (get vec w))"

text \<open>A word without a letter of \<^verbatim>\<open>[A-Z]\<close>, as both tokenizers produce.\<close>

definition lowercased :: "string \<Rightarrow> bool" where
  "lowercased w = (\<forall>c\<in>set w. \<not> isUpper c)"

text \<open>
  The value of \<^verbatim>\<open>finalScore\<close> before \<^verbatim>\<open>Math.min\<close> clamps it, from the three components the
  entry carries.
\<close>

definition preClamp :: "'a scored \<Rightarrow> jsnum" where
  "preClamp e = finalScore (similarity e) (timeWeight e) (conversationBonus e)"

text \<open>
  The document frequency a table holds for a word: its count, and 0 for a word the table
  does not have.
\<close>

definition dfCount :: "(string \<times> count) list \<Rightarrow> string \<Rightarrow> nat" where
  "dfCount df t = (case map_of df t of Some (Count d) \<Rightarrow> d | _ \<Rightarrow> 0)"

section \<open>The entries of the ranking\<close>

lemma scores_nth:
  assumes "i < length sessions"
  shows "scores ctx sessions clock ! i =
    scoreSession
      (calculateTFIDF (contextKeywords ctx)
        (calculateDF (contextKeywords ctx # map extractSessionKeywords sessions))
        (length sessions + 1))
      (calculateDF (contextKeywords ctx # map extractSessionKeywords sessions))
      (length sessions + 1)
      (extractSessionKeywords (sessions ! i))
      (clock (2 * i)) (clock (2 * i + 1)) (sessions ! i)"
  using assms by (simp add: scores_def Let_def nth_enumerate_eq)

lemma length_scores: "length (scores ctx sessions clock) = length sessions"
  by (simp add: scores_def Let_def)

lemma timeWeight_scoreSession:
  "timeWeight (scoreSession c df n kws nowDays nowHours s) =
    decay (elapsed nowDays (date s) 86400000) (elapsed nowHours (date s) 3600000)"
  by (simp add: scoreSession_def Let_def)

lemma timeWeight_scores:
  assumes "i < length sessions"
  shows "timeWeight (scores ctx sessions clock ! i) =
    decay (elapsed (clock (2 * i)) (date (sessions ! i)) 86400000)
          (elapsed (clock (2 * i + 1)) (date (sessions ! i)) 3600000)"
  using assms by (simp add: scores_nth timeWeight_scoreSession)

lemma length_insertSorted: "length (insertSorted cmp x ys) = Suc (length ys)"
  by (induction ys) simp_all

lemma length_sortBy: "length (sortBy cmp xs) = length xs"
  by (induction xs) (simp_all add: sortBy_def length_insertSorted)

lemma mset_insertSorted: "mset (insertSorted cmp x ys) = add_mset x (mset ys)"
  by (induction ys) simp_all

lemma mset_sortBy: "mset (sortBy cmp xs) = mset xs"
  by (induction xs) (simp_all add: sortBy_def mset_insertSorted)

lemma length_calculateRelevanceScores:
  "length (calculateRelevanceScores ctx sessions clock) = length sessions"
  by (simp add: calculateRelevanceScores_def length_sortBy length_scores)

lemma mset_calculateRelevanceScores:
  "mset (calculateRelevanceScores ctx sessions clock) = mset (scores ctx sessions clock)"
  by (simp add: calculateRelevanceScores_def mset_sortBy scores_def)

lemma session_scoreSession: "session (scoreSession c df n kws nowDays nowHours s) = s"
  by (simp add: scoreSession_def Let_def)

lemma map_session_scores: "map session (scores ctx sessions clock) = sessions"
  by (rule nth_equalityI) (simp_all add: length_scores scores_nth session_scoreSession)

lemma score_scoreSession_NaN:
  assumes "date s = None"
  shows "score (scoreSession c df n kws nowDays nowHours s) = NaN"
proof -
  have tw: "decay (elapsed nowDays None 86400000) (elapsed nowHours None 3600000) = NaN"
    by (simp add: decay_def)
  have "finalScore sim NaN bonus = NaN" for sim bonus
    by (cases sim) (simp_all add: finalScore_def)
  with tw show ?thesis using assms by (simp add: scoreSession_def Let_def)
qed

lemma exp_fourteenth: "exp (- (1 / 14) :: real) > 1 / 2"
proof -
  have "1 + (- (1 / 14) :: real) \<le> exp (- (1 / 14))"
    by (rule exp_ge_add_one_self)
  then show ?thesis by simp
qed

section \<open>Time weight\<close>

text \<open>
  In general the two clock readings of a session differ: the hours are counted from the
  second reading and the days from the first.
\<close>

lemma time_weight_two_readings:
  assumes "i < length sessions"
    and "date (sessions ! i) = Some t"
    and "h = real_of_int (clock (2 * i + 1) - t) / (1000 * 60 * 60)"
    and "d = real_of_int (clock (2 * i) - t) / (1000 * 60 * 60 * 24)"
  shows "timeWeight (scores ctx sessions clock ! i) =
           (if h < 24 then Num (1.0 - h / 48) else Num (exp (- d / 14)))"
  using assms by (simp add: timeWeight_scores decay_def)

text \<open>
  Claim C2. For a session with a parseable timestamp \<open>t\<close>, ranked when both readings of
  the clock give the instant \<open>now\<close>, let \<open>h\<close> be the hours elapsed since \<open>t\<close> and
  \<open>d = h / 24\<close> the days. The time weight is \<open>1 - h / 48\<close> when \<open>h < 24\<close> and
  \<open>exp (- d / 14)\<close> when \<open>h \<ge> 24\<close>. The branches do not meet: the first stays above
  \<open>1 / 2\<close> and tends to it, the second starts at \<open>exp (- 1 / 14)\<close>, which is larger.
\<close>

theorem time_weight_two_regimes:
  assumes "i < length sessions"
    and "date (sessions ! i) = Some t"
    and "clock (2 * i) = now" and "clock (2 * i + 1) = now"
    and "h = real_of_int (now - t) / (1000 * 60 * 60)"
    and "d = h / 24"
  shows "timeWeight (scores ctx sessions clock ! i) =
           (if h < 24 then Num (1.0 - h / 48) else Num (exp (- d / 14)))
         \<and> (h = 24 \<longrightarrow> timeWeight (scores ctx sessions clock ! i) = Num (exp (- (1 / 14))))
         \<and> exp (- (1 / 14) :: real) \<noteq> 1 / 2"
  using assms exp_fourteenth by (simp add: timeWeight_scores decay_def)

theorem time_weight_two_regimes_witness:
  "timeWeight (scores \<lparr> cwd = None, recentFiles = None \<rparr>
      [\<lparr> date = Some 0, summary = None, conversations = None, observations = None \<rparr>]
      (frozenClock 3600000) ! 0) = Num (47 / 48)"
  using time_weight_two_regimes [of 0
      "[\<lparr> date = Some 0, summary = None, conversations = None, observations = None \<rparr>]"
      0 "frozenClock 3600000" 3600000 1 "1 / 24" "\<lparr> cwd = None, recentFiles = None \<rparr>"]
  by (simp add: frozenClock_def)

text \<open>
  Claim C1, as stated, fails at its first value: for a session stamped exactly 24 hours
  (86400000 ms) before the clock reading, \<open>h < 24\<close> is false, the exponential branch is
  taken, and the weight is \<open>exp (- 1 / 14)\<close>, not \<open>0.5\<close>.
\<close>

theorem time_weight_24h_counterexample:
  "timeWeight (scores \<lparr> cwd = None, recentFiles = None \<rparr>
      [\<lparr> date = Some 0, summary = None, conversations = None, observations = None \<rparr>]
      (frozenClock 86400000) ! 0) \<noteq> Num 0.5"
  using exp_fourteenth by (simp add: timeWeight_scores decay_def frozenClock_def)

text \<open>
  Claim C1, amended. When both readings of the clock give \<open>now\<close>: a session stamped
  \<open>now\<close> has time weight 1, a session stamped 14 days before \<open>now\<close> has time weight
  \<open>exp (- 1)\<close>, and a session stamped exactly 24 hours before \<open>now\<close> has time weight
  \<open>exp (- 1 / 14)\<close>.
\<close>

theorem time_weight_boundary_values:
  assumes "i < length sessions"
    and "clock (2 * i) = now" and "clock (2 * i + 1) = now"
  shows "(date (sessions ! i) = Some now \<longrightarrow>
            timeWeight (scores ctx sessions clock ! i) = Num 1.0)
       \<and> (date (sessions ! i) = Some (now - 14 * 24 * 60 * 60 * 1000) \<longrightarrow>
            timeWeight (scores ctx sessions clock ! i) = Num (exp (- 1)))
       \<and> (date (sessions ! i) = Some (now - 24 * 60 * 60 * 1000) \<longrightarrow>
            timeWeight (scores ctx sessions clock ! i) = Num (exp (- (1 / 14))))"
  using assms by (simp add: timeWeight_scores decay_def)

theorem time_weight_boundary_values_witness:
  "timeWeight (scores \<lparr> cwd = None, recentFiles = None \<rparr>
      [\<lparr> date = Some 1000, summary = None, conversations = None, observations = None \<rparr>]
      (frozenClock 1000) ! 0) = Num 1
   \<and> timeWeight (scores \<lparr> cwd = None, recentFiles = None \<rparr>
      [\<lparr> date = Some 0, summary = None, conversations = None, observations = None \<rparr>]
      (frozenClock 1209600000) ! 0) = Num (exp (- 1))
   \<and> timeWeight (scores \<lparr> cwd = None, recentFiles = None \<rparr>
      [\<lparr> date = Some 0, summary = None, conversations = None, observations = None \<rparr>]
      (frozenClock 86400000) ! 0) = Num (exp (- (1 / 14)))"
  using
    time_weight_boundary_values [of 0
      "[\<lparr> date = Some 1000, summary = None, conversations = None, observations = None \<rparr>]"
      "frozenClock 1000" 1000 "\<lparr> cwd = None, recentFiles = None \<rparr>"]
    time_weight_boundary_values [of 0
      "[\<lparr> date = Some 0, summary = None, conversations = None, observations = None \<rparr>]"
      "frozenClock 1209600000" 1209600000 "\<lparr> cwd = None, recentFiles = None \<rparr>"]
    time_weight_boundary_values [of 0
      "[\<lparr> date = Some 0, summary = None, conversations = None, observations = None \<rparr>]"
      "frozenClock 86400000" 86400000 "\<lparr> cwd = None, recentFiles = None \<rparr>"]
  by (simp add: frozenClock_def)

text \<open>
  Claim C3, as stated, fails: for a session without a parseable timestamp the time weight
  is \<^verbatim>\<open>NaN\<close>, not 0.
\<close>

theorem missing_timestamp_counterexample:
  "timeWeight (scores \<lparr> cwd = None, recentFiles = None \<rparr>
      [\<lparr> date = None, summary = None, conversations = None, observations = None \<rparr>]
      (frozenClock 0) ! 0) \<noteq> Num 0"
  by (simp add: timeWeight_scores decay_def)

text \<open>
  Claim C3, amended. For a session whose timestamp is missing or is not a date, the
  ranking still returns one entry for every session of the corpus, and in the entry of
  that session the time weight and the score are both \<^verbatim>\<open>NaN\<close>.
\<close>

theorem missing_timestamp_gives_NaN:
  assumes "i < length sessions" and "date (sessions ! i) = None"
  shows "timeWeight (scores ctx sessions clock ! i) = NaN
       \<and> score (scores ctx sessions clock ! i) = NaN
       \<and> length (calculateRelevanceScores ctx sessions clock) = length sessions"
  using assms
  by (simp add: timeWeight_scoreSession decay_def scores_nth score_scoreSession_NaN
      length_calculateRelevanceScores)

theorem missing_timestamp_gives_NaN_witness:
  "timeWeight (scores \<lparr> cwd = None, recentFiles = None \<rparr>
      [\<lparr> date = None, summary = None, conversations = None, observations = None \<rparr>]
      (frozenClock 0) ! 0) = NaN
   \<and> score (scores \<lparr> cwd = None, recentFiles = None \<rparr>
      [\<lparr> date = None, summary = None, conversations = None, observations = None \<rparr>]
      (frozenClock 0) ! 0) = NaN
   \<and> length (calculateRelevanceScores \<lparr> cwd = None, recentFiles = None \<rparr>
      [\<lparr> date = None, summary = None, conversations = None, observations = None \<rparr>]
      (frozenClock 0)) = 1"
  using missing_timestamp_gives_NaN [of 0
      "[\<lparr> date = None, summary = None, conversations = None, observations = None \<rparr>]"
      "\<lparr> cwd = None, recentFiles = None \<rparr>" "frozenClock 0"]
  by simp

section \<open>The session records\<close>

text \<open>
  Claim C9. The ranking is a function of its arguments and writes to none of them; the
  only array it sorts in place is the array of entries it has built itself. The entries
  built for the corpus carry, in corpus order, the session records themselves, with every
  field (also those the engine does not read) as it was, and the ranking returned holds
  the same records, each once, in the sorted order.
\<close>

theorem sessions_unchanged:
  "map session (scores ctx sessions clock) = sessions
   \<and> mset (map session (calculateRelevanceScores ctx sessions clock)) = mset sessions"
proof -
  have "mset (map session (calculateRelevanceScores ctx sessions clock)) =
        mset (map session (scores ctx sessions clock))"
    using arg_cong [OF mset_calculateRelevanceScores, of "image_mset session" ctx sessions clock]
    by simp
  then show ?thesis by (simp add: map_session_scores)
qed

theorem sessions_unchanged_witness:
  "map session (scores \<lparr> cwd = None, recentFiles = None \<rparr>
      [\<lparr> date = None, summary = None, conversations = None, observations = None \<rparr>,
       \<lparr> date = Some 0, summary = Some ''auth'', conversations = None, observations = None \<rparr>]
      (frozenClock 0))
    = [\<lparr> date = None, summary = None, conversations = None, observations = None \<rparr>,
       \<lparr> date = Some 0, summary = Some ''auth'', conversations = None, observations = None \<rparr>]
   \<and> mset (map session (calculateRelevanceScores \<lparr> cwd = None, recentFiles = None \<rparr>
      [\<lparr> date = None, summary = None, conversations = None, observations = None \<rparr>,
       \<lparr> date = Some 0, summary = Some ''auth'', conversations = None, observations = None \<rparr>]
      (frozenClock 0)))
    = mset [\<lparr> date = None, summary = None, conversations = None, observations = None \<rparr>,
       \<lparr> date = Some 0, summary = Some ''auth'', conversations = None, observations = None \<rparr>]"
  by (rule sessions_unchanged)

section \<open>Counting words in a plain object\<close>

lemma set_uniqueWords [simp]: "set (uniqueWords ws) = set ws"
  by (induction ws) auto

lemma distinct_uniqueWords [simp]: "distinct (uniqueWords ws)"
  by (induction ws) auto

lemma uniqueWords_snoc:
  "uniqueWords (ws @ [w]) = (if w \<in> set ws then uniqueWords ws else uniqueWords ws @ [w])"
proof (induction ws)
  case Nil
  then show ?case by simp
next
  case (Cons a ws)
  then show ?case by (auto simp add: filter_id_conv)
qed

lemma map_of_tabulate:
  "map_of (map (\<lambda>k. (k, f k)) ks) w = (if w \<in> set ks then Some (f w) else None)"
  by (induction ks) auto

lemma assign_tabulate:
  assumes "distinct ks"
  shows "assign (map (\<lambda>k. (k, f k)) ks) w v =
    (if w \<in> set ks then map (\<lambda>k. (k, if k = w then v else f k)) ks
     else map (\<lambda>k. (k, f k)) ks @ [(w, v)])"
  using assms by (induction ks) auto

lemma proto_in_prototype: "''__proto__'' \<in> set objectPrototype"
  by (simp add: objectPrototype_def)

lemma bump_counted: "bump (counted hist) w = counted (hist @ [w])"
proof -
  let ?ks = "filter (\<lambda>w. w \<noteq> ''__proto__'') (uniqueWords hist)"
  have d: "distinct ?ks" by simp
  show ?thesis
  proof (cases "w = ''__proto__''")
    case True
    then show ?thesis
      by (auto simp add: bump_def put_def counted_def uniqueWords_snoc)
  next
    case False
    then show ?thesis
      by (auto simp add: bump_def put_def get_def counted_def uniqueWords_snoc
          map_of_tabulate assign_tabulate [OF d] count_list_0_iff)
  qed
qed

lemma foldl_bump_counted: "foldl bump (counted hist) ws = counted (hist @ ws)"
proof (induction ws arbitrary: hist)
  case Nil
  then show ?case by simp
next
  case (Cons w ws)
  then show ?case using Cons.IH [of "hist @ [w]"] by (simp add: bump_counted)
qed

lemma counted_Nil: "counted [] = []"
  by (simp add: counted_def)

lemma foldl_bump: "foldl bump [] ws = counted ws"
  using foldl_bump_counted [of "[]" ws] by (simp add: counted_Nil)

lemma calculateDF_counted: "calculateDF documents = counted (concat (map uniqueWords documents))"
proof -
  have "foldl (\<lambda>df doc. foldl bump df (uniqueWords doc)) (counted hist) documents =
        counted (hist @ concat (map uniqueWords documents))" for hist
    by (induction documents arbitrary: hist) (simp_all add: foldl_bump_counted)
  from this [of "[]"] show ?thesis by (simp add: calculateDF_def counted_Nil)
qed

section \<open>The term-frequency vector\<close>

lemma counted_ownKeys:
  "counted ws = map (\<lambda>w. (w, if w \<in> set objectPrototype then Junk else Count (count_list ws w))) (ownKeys ws)"
  by (simp add: counted_def ownKeys_def)

lemma foldl_Math_max_NaN: "foldl Math_max NaN xs = NaN"
  by (induction xs) simp_all

lemma foldl_Math_max:
  "foldl Math_max (Num a) xs =
    (if NaN \<in> set xs then NaN else Num (Max (insert a (theReal ` set xs))))"
proof (induction xs arbitrary: a)
  case Nil
  then show ?case by simp
next
  case (Cons x xs)
  show ?case
  proof (cases x)
    case (Num r)
    have "Max (insert (max a r) (theReal ` set xs)) = Max (insert a (insert r (theReal ` set xs)))"
      by (cases "set xs = {}") (simp_all add: max.assoc)
    then show ?thesis using Num Cons.IH [of "max a r"] by (auto simp add: image_iff)
  next
    case NaN
    then show ?thesis by (simp add: foldl_Math_max_NaN)
  qed
qed

lemma maxFreq_counted:
  "maxFreq (counted ws) =
    (if \<exists>k\<in>set (ownKeys ws). k \<in> set objectPrototype then NaN
     else Num (real (maxCount ws)))"
proof (cases "\<exists>k\<in>set (ownKeys ws). k \<in> set objectPrototype")
  case True
  then have "NaN \<in> set (map (toNumber \<circ> snd) (counted ws))"
    by (force simp add: counted_ownKeys image_iff)
  then show ?thesis using True by (simp add: maxFreq_def foldl_Math_max)
next
  case False
  then have eq: "map (toNumber \<circ> snd) (counted ws) = map (\<lambda>k. Num (real (count_list ws k))) (ownKeys ws)"
    by (simp add: counted_ownKeys)
  have notnan: "NaN \<notin> set (map (\<lambda>k. Num (real (count_list ws k))) (ownKeys ws))" by auto
  have img: "theReal ` set (map (\<lambda>k. Num (real (count_list ws k))) (ownKeys ws))
      = real ` (count_list ws ` set (ownKeys ws))"
    by (auto simp add: image_iff)
  have "Max (insert 1 (real ` (count_list ws ` set (ownKeys ws)))) = real (maxCount ws)"
  proof -
    have "real (Max (insert 1 (count_list ws ` set (ownKeys ws)))) =
          Max (real ` (insert 1 (count_list ws ` set (ownKeys ws))))"
      by (rule mono_Max_commute) (auto simp add: mono_def)
    then show ?thesis by (simp add: maxCount_def)
  qed
  then show ?thesis
    using False notnan unfolding maxFreq_def eq foldl_Math_max img by simp
qed

lemma calculateTF_cases:
  "calculateTF ws =
    (if \<exists>k\<in>set (ownKeys ws). k \<in> set objectPrototype
     then map (\<lambda>k. (k, NaN)) (ownKeys ws)
     else map (\<lambda>k. (k, Num (real (count_list ws k) / real (maxCount ws)))) (ownKeys ws))"
  by (auto simp add: calculateTF_def foldl_bump Let_def maxFreq_counted)
     (auto simp add: counted_ownKeys)

lemma keys_calculateTF: "map fst (calculateTF ws) = ownKeys ws"
  by (simp add: calculateTF_cases comp_def)

lemma maxCount_ge: "k \<in> set (ownKeys ws) \<Longrightarrow> count_list ws k \<le> maxCount ws"
  by (simp add: maxCount_def)

lemma maxCount_pos: "0 < maxCount ws"
proof -
  have "1 \<le> maxCount ws" unfolding maxCount_def by (rule Max_ge) auto
  then show ?thesis by simp
qed

lemma maxCount_attained:
  assumes "ownKeys ws \<noteq> []"
  shows "\<exists>k\<in>set (ownKeys ws). count_list ws k = maxCount ws"
proof -
  define S where "S = count_list ws ` set (ownKeys ws)"
  have fin: "finite S" by (simp add: S_def)
  have ne: "S \<noteq> {}" using assms by (simp add: S_def)
  have "0 < count_list ws x" if "x \<in> set ws" for x
    using that count_list_0_iff [of ws x] by auto
  then have pos: "1 \<le> c" if "c \<in> S" for c
    using that by (auto simp add: S_def ownKeys_def Suc_le_eq)
  obtain c where c: "c \<in> S" using ne by blast
  have "c \<le> Max S" using fin c by (rule Max_ge)
  with pos [OF c] have "1 \<le> Max S" by simp
  then have "Max (insert 1 S) = Max S"
    using fin ne by (simp add: max_def)
  moreover have "Max S \<in> S" using fin ne by (rule Max_in)
  ultimately have "maxCount ws \<in> S" by (simp add: maxCount_def S_def)
  then show ?thesis by (auto simp add: S_def)
qed

section \<open>The TF-IDF vector and the sums of the cosine\<close>

lemma assign_fresh: "w \<notin> fst ` set obj \<Longrightarrow> assign obj w v = obj @ [(w, v)]"
  by (induction obj) auto

lemma foldl_put_fresh:
  assumes "distinct (map fst kvs)" and "''__proto__'' \<notin> fst ` set kvs"
    and "fst ` set acc \<inter> fst ` set kvs = {}"
  shows "foldl (\<lambda>obj (w, t). put obj w (g w t)) acc kvs = acc @ map (\<lambda>(w, t). (w, g w t)) kvs"
  using assms
proof (induction kvs arbitrary: acc)
  case Nil
  then show ?case by simp
next
  case (Cons kv kvs)
  obtain w t where kv: "kv = (w, t)" by (cases kv)
  have fresh: "w \<notin> fst ` set acc" using Cons.prems kv by auto
  have step: "put acc w (g w t) = acc @ [(w, g w t)]"
    using Cons.prems kv fresh by (auto simp add: put_def assign_fresh)
  have "fst ` set (acc @ [(w, g w t)]) \<inter> fst ` set kvs = {}"
    using Cons.prems kv by (auto simp add: image_iff)
  with Cons.IH [of "acc @ [(w, g w t)]"] Cons.prems kv step show ?case by simp
qed

lemma distinct_ownKeys [simp]: "distinct (ownKeys ws)"
  by (simp add: ownKeys_def)

lemma proto_not_ownKeys [simp]: "''__proto__'' \<notin> set (ownKeys ws)"
  by (simp add: ownKeys_def)

lemma set_ownKeys: "set (ownKeys ws) = set ws - {''__proto__''}"
  by (auto simp add: ownKeys_def)

lemma calculateTFIDF_map:
  "calculateTFIDF ws df n =
    map (\<lambda>(w, t). (w, jsmul t (idf (incr (get df w)) n))) (calculateTF ws)"
proof -
  have "distinct (map fst (calculateTF ws))" by (simp add: keys_calculateTF)
  moreover have "''__proto__'' \<notin> fst ` set (calculateTF ws)"
    using keys_calculateTF [of ws] proto_not_ownKeys [of ws] by (metis set_map)
  ultimately show ?thesis
    unfolding calculateTFIDF_def
    using foldl_put_fresh [of "calculateTF ws" "[]" "\<lambda>w t. jsmul t (idf (incr (get df w)) n)"]
    by simp
qed

lemma keys_calculateTFIDF: "map fst (calculateTFIDF ws df n) = ownKeys ws"
  by (simp add: calculateTFIDF_map calculateTF_cases comp_def)

lemma calculateTFIDF_dirty:
  "dirty ws \<Longrightarrow> calculateTFIDF ws df n = map (\<lambda>k. (k, NaN)) (ownKeys ws)"
  by (simp add: calculateTFIDF_map calculateTF_cases dirty_def comp_def)

lemma get_cases:
  "get obj w =
    (case map_of obj w of Some v \<Rightarrow> Own v
     | None \<Rightarrow> if w \<in> set objectPrototype then Inherited else Undefined)"
  by (simp add: get_def)

lemma get_not_Inherited:
  "w \<notin> set objectPrototype \<or> w \<in> fst ` set obj \<Longrightarrow> get obj w \<noteq> Inherited"
  by (auto simp add: get_def map_of_eq_None_iff split: option.splits)

lemma or0_Num: "p \<noteq> Inherited \<Longrightarrow> \<exists>x. or0 p = Num x"
  by (cases p rule: or0.cases) simp_all

lemma foldl_accumulate:
  "foldl (accumulate vec1 vec2) s ws =
    \<lparr> dotProduct = foldl jsadd (dotProduct s)
        (map (\<lambda>w. jsmul (or0 (get vec1 w)) (or0 (get vec2 w))) ws),
      norm1 = foldl jsadd (norm1 s) (map (\<lambda>w. jsmul (or0 (get vec1 w)) (or0 (get vec1 w))) ws),
      norm2 = foldl jsadd (norm2 s) (map (\<lambda>w. jsmul (or0 (get vec2 w)) (or0 (get vec2 w))) ws) \<rparr>"
  by (induction ws arbitrary: s) (simp_all add: accumulate_def Let_def)

lemma foldl_jsadd_Num:
  assumes "\<forall>x\<in>set xs. x \<noteq> NaN"
  shows "foldl jsadd (Num a) xs = Num (a + sum_list (map theReal xs))"
  using assms
proof (induction xs arbitrary: a)
  case Nil
  then show ?case by simp
next
  case (Cons x xs)
  then obtain r where "x = Num r" by (cases x) auto
  with Cons show ?case by (simp add: add.assoc)
qed

lemma cosine_norm1_zero:
  assumes "\<forall>w\<in>set (allWords vec1 vec2). or0 (get vec1 w) = Num 0"
  shows "cosineSimilarity vec1 vec2 = Num 0"
proof -
  have "map (\<lambda>w. jsmul (or0 (get vec1 w)) (or0 (get vec1 w))) (allWords vec1 vec2)
      = map (\<lambda>w. Num 0) (allWords vec1 vec2)"
    using assms by simp
  moreover have "foldl jsadd (Num 0) (map (\<lambda>w. Num 0) ws) = Num 0" for ws :: "string list"
    by (induction ws) simp_all
  ultimately have "foldl jsadd (Num 0)
      (map (\<lambda>w. jsmul (or0 (get vec1 w)) (or0 (get vec1 w))) (allWords vec1 vec2)) = Num 0"
    by (simp only:)
  then show ?thesis
    unfolding cosineSimilarity_def foldl_accumulate Let_def allWords_def [symmetric]
    by simp
qed

lemma cosine_norm2_zero:
  assumes "\<forall>w\<in>set (allWords vec1 vec2). or0 (get vec2 w) = Num 0"
  shows "cosineSimilarity vec1 vec2 = Num 0"
proof -
  have "map (\<lambda>w. jsmul (or0 (get vec2 w)) (or0 (get vec2 w))) (allWords vec1 vec2)
      = map (\<lambda>w. Num 0) (allWords vec1 vec2)"
    using assms by simp
  moreover have "foldl jsadd (Num 0) (map (\<lambda>w. Num 0) ws) = Num 0" for ws :: "string list"
    by (induction ws) simp_all
  ultimately have "foldl jsadd (Num 0)
      (map (\<lambda>w. jsmul (or0 (get vec2 w)) (or0 (get vec2 w))) (allWords vec1 vec2)) = Num 0"
    by (simp only:)
  then show ?thesis
    unfolding cosineSimilarity_def foldl_accumulate Let_def allWords_def [symmetric]
    by simp
qed

lemma cosine_numeric:
  assumes "\<forall>w\<in>set (allWords vec1 vec2). get vec1 w \<noteq> Inherited \<and> get vec2 w \<noteq> Inherited"
  shows "cosineSimilarity vec1 vec2 =
    (let ws = allWords vec1 vec2;
         n1 = sum_list (map (\<lambda>w. entry vec1 w * entry vec1 w) ws);
         n2 = sum_list (map (\<lambda>w. entry vec2 w * entry vec2 w) ws)
     in if n1 = 0 \<or> n2 = 0 then Num 0
        else Num (sum_list (map (\<lambda>w. entry vec1 w * entry vec2 w) ws) / (sqrt n1 * sqrt n2)))"
proof -
  let ?ws = "allWords vec1 vec2"
  have num: "\<exists>x. or0 (get vec1 w) = Num x" "\<exists>y. or0 (get vec2 w) = Num y" if "w \<in> set ?ws" for w
    using assms that or0_Num by blast+
  have prod: "jsmul (or0 (get u w)) (or0 (get v w)) = Num (entry u w * entry v w)"
    if "w \<in> set ?ws" "u = vec1 \<or> u = vec2" "v = vec1 \<or> v = vec2" for u v w
    using num [OF that(1)] that(2,3) by (auto simp add: entry_def)
  have sum: "foldl jsadd (Num 0) (map (\<lambda>w. jsmul (or0 (get u w)) (or0 (get v w))) ?ws)
      = Num (sum_list (map (\<lambda>w. entry u w * entry v w) ?ws))"
    if "u = vec1 \<or> u = vec2" "v = vec1 \<or> v = vec2" for u v
  proof -
    have "map (\<lambda>w. jsmul (or0 (get u w)) (or0 (get v w))) ?ws
        = map (\<lambda>w. Num (entry u w * entry v w)) ?ws"
      using prod that by simp
    then have "foldl jsadd (Num 0) (map (\<lambda>w. jsmul (or0 (get u w)) (or0 (get v w))) ?ws)
        = foldl jsadd (Num 0) (map (\<lambda>w. Num (entry u w * entry v w)) ?ws)"
      by (simp only:)
    also have "\<dots> = Num (sum_list (map (\<lambda>w. entry u w * entry v w) ?ws))"
      by (simp add: foldl_jsadd_Num comp_def)
    finally show ?thesis .
  qed
  show ?thesis
    unfolding cosineSimilarity_def foldl_accumulate Let_def allWords_def [symmetric]
    by (simp add: sum)
qed

section \<open>The words of the tokenizers\<close>

lemma toLowerChar_not_upper: "\<not> isUpper (toLowerChar c)"
proof -
  define n where "n = (of_char c :: nat)"
  show ?thesis
  proof (cases "(65 \<le> n \<and> n \<le> 90) \<or> (192 \<le> n \<and> n \<le> 222 \<and> n \<noteq> 215)")
    case True
    then have "toLowerChar c = char_of (n + 32)"
      unfolding toLowerChar_def n_def Let_def by (simp only: if_True)
    moreover have "n + 32 < 256" using True by auto
    then have "of_char (char_of (n + 32)) = n + 32"
      by simp
    ultimately show ?thesis using True by (auto simp add: isUpper_def)
  next
    case False
    then have "toLowerChar c = c"
      unfolding toLowerChar_def n_def Let_def by (simp only: if_False)
    then show ?thesis using False by (auto simp add: isUpper_def n_def)
  qed
qed

lemma lowercased_toLowerCase: "lowercased (toLowerCase s)"
  by (simp add: lowercased_def toLowerCase_def toLowerChar_not_upper)

lemma set_split: "w \<in> set (split sep s) \<Longrightarrow> set w \<subseteq> set s"
proof (induction s arbitrary: w)
  case Nil
  then show ?case by simp
next
  case (Cons c cs)
  then show ?case by (fastforce split: if_splits list.splits)
qed

lemma set_splitRuns: "w \<in> set (splitRuns b s) \<Longrightarrow> set w \<subseteq> set s"
proof (induction s arbitrary: w b)
  case Nil
  then show ?case by simp
next
  case (Cons c cs)
  show ?case
  proof (cases "isSeparator c")
    case True
    then have "w = [] \<or> w \<in> set (splitRuns True cs)"
      using Cons.prems by (auto split: if_splits)
    then show ?thesis using Cons.IH [of w True] by auto
  next
    case False
    show ?thesis
    proof (cases "splitRuns False cs")
      case Nil
      then show ?thesis using False Cons.prems by simp
    next
      case (Cons v vs)
      then have "w = c # v \<or> w \<in> set vs" using False Cons.prems by simp
      moreover have "set v \<subseteq> set cs" "\<And>u. u \<in> set vs \<Longrightarrow> set u \<subseteq> set cs"
        using Cons Cons.IH [of _ False] by simp_all
      ultimately show ?thesis by auto
    qed
  qed
qed

lemma set_collapse: "set (collapse b s) \<subseteq> insert (CHR '' '') (set s)"
  by (induction s arbitrary: b) auto

lemma set_trim: "set (trim s) \<subseteq> set s"
  by (auto simp add: trim_def dest!: set_dropWhileD)

lemma space_not_upper: "\<not> isUpper (CHR '' '')"
  by (simp add: isUpper_def)

lemma lowercased_extractKeywords: "w \<in> set (extractKeywords t) \<Longrightarrow> lowercased w"
proof (cases t)
  case None
  then show "w \<in> set (extractKeywords t) \<Longrightarrow> lowercased w" by simp
next
  case (Some body)
  assume w: "w \<in> set (extractKeywords t)"
  let ?m = "map (\<lambda>c. if isWord c \<or> isSpace c then c else CHR '' '') (toLowerCase body)"
  have m: "\<forall>c\<in>set ?m. \<not> isUpper c"
    using lowercased_toLowerCase [of body] space_not_upper by (auto simp add: lowercased_def)
  from w Some have "w \<in> set (split (CHR '' '') (trim (collapse False ?m)))"
    by (auto simp add: Let_def split: if_splits)
  then have "set w \<subseteq> set (trim (collapse False ?m))" by (rule set_split)
  also have "\<dots> \<subseteq> set (collapse False ?m)" by (rule set_trim)
  also have "\<dots> \<subseteq> insert (CHR '' '') (set ?m)" by (rule set_collapse)
  finally show "lowercased w" using m space_not_upper by (auto simp add: lowercased_def)
qed

lemma lowercased_pathWords: "w \<in> set (pathWords part) \<Longrightarrow> lowercased w"
proof -
  assume "w \<in> set (pathWords part)"
  then have "w \<in> set (splitRuns False (toLowerCase (camelSplit part)))"
    by (simp add: pathWords_def)
  then have "set w \<subseteq> set (toLowerCase (camelSplit part))" by (rule set_splitRuns)
  then show ?thesis using lowercased_toLowerCase [of "camelSplit part"]
    by (auto simp add: lowercased_def)
qed

lemma lowercased_extractPathKeywords: "w \<in> set (extractPathKeywords p) \<Longrightarrow> lowercased w"
  by (cases p) (auto simp add: Let_def dest: lowercased_pathWords split: if_splits)

lemma lowercased_observationKeywords: "w \<in> set (observationKeywords obs) \<Longrightarrow> lowercased w"
  by (auto simp add: observationKeywords_def
      simp del: extractPathKeywords.simps extractKeywords.simps
      dest: lowercased_extractKeywords lowercased_extractPathKeywords split: if_splits)

lemma lowercased_extractSessionKeywords: "w \<in> set (extractSessionKeywords s) \<Longrightarrow> lowercased w"
  by (auto simp add: extractSessionKeywords_def
      simp del: extractPathKeywords.simps extractKeywords.simps
      dest: lowercased_extractKeywords lowercased_observationKeywords
      split: if_splits option.splits)

lemma lowercased_contextKeywords: "w \<in> set (contextKeywords ctx) \<Longrightarrow> lowercased w"
  by (auto simp add: contextKeywords_def simp del: extractPathKeywords.simps
      dest: lowercased_extractPathKeywords split: if_splits option.splits)

lemma lowercased_prototype:
  assumes "lowercased w" and "w \<in> set objectPrototype"
  shows "w = ''constructor'' \<or> w = ''__proto__''"
proof -
  have "\<not> lowercased ''hasOwnProperty''" "\<not> lowercased ''isPrototypeOf''"
    "\<not> lowercased ''propertyIsEnumerable''" "\<not> lowercased ''toLocaleString''"
    "\<not> lowercased ''toString''" "\<not> lowercased ''valueOf''"
    "\<not> lowercased ''__defineGetter__''" "\<not> lowercased ''__defineSetter__''"
    "\<not> lowercased ''__lookupGetter__''" "\<not> lowercased ''__lookupSetter__''"
    by (simp_all add: lowercased_def isUpper_def)
  then show ?thesis using assms by (auto simp add: objectPrototype_def)
qed

lemma constructor_in_prototype: "''constructor'' \<in> set objectPrototype"
  by (simp add: objectPrototype_def)

lemma get_tabulate:
  "get (map (\<lambda>k. (k, f k)) ks) w =
    (if w \<in> set ks then Own (f w) else if w \<in> set objectPrototype then Inherited else Undefined)"
  by (simp add: get_def map_of_tabulate)

lemma set_allWords: "set (allWords vec1 vec2) = fst ` set vec1 \<union> fst ` set vec2"
  by (simp add: allWords_def)

lemma keys_set_calculateTFIDF: "fst ` set (calculateTFIDF ws df n) = set (ownKeys ws)"
  using keys_calculateTFIDF [of ws df n] by (metis set_map)

lemma dirty_lowercased:
  assumes "\<forall>w\<in>set ws. lowercased w"
  shows "dirty ws \<longleftrightarrow> ''constructor'' \<in> set (ownKeys ws)"
  using assms lowercased_prototype constructor_in_prototype
  by (auto simp add: dirty_def set_ownKeys)

lemma dirty_side_zero:
  assumes l1: "\<forall>w\<in>set ws1. lowercased w" and l2: "\<forall>w\<in>set ws2. lowercased w"
    and d: "dirty ws1"
    and w: "w \<in> set (ownKeys ws1) \<union> set (ownKeys ws2)"
  shows "or0 (get (calculateTFIDF ws1 df n) w) = Num 0"
proof (cases "w \<in> set (ownKeys ws1)")
  case True
  then show ?thesis by (simp add: calculateTFIDF_dirty [OF d] get_tabulate)
next
  case False
  with w have w2: "w \<in> set (ownKeys ws2)" by simp
  have c: "''constructor'' \<in> set (ownKeys ws1)" using d dirty_lowercased [OF l1] by simp
  have "w \<notin> set objectPrototype"
  proof
    assume "w \<in> set objectPrototype"
    moreover have "lowercased w" using l2 w2 by (simp add: set_ownKeys)
    ultimately have "w = ''constructor'' \<or> w = ''__proto__''" using lowercased_prototype by blast
    then show False using w2 c False by auto
  qed
  with False show ?thesis by (simp add: calculateTFIDF_dirty [OF d] get_tabulate)
qed

lemma similarity_numeric:
  assumes l1: "\<forall>w\<in>set ws1. lowercased w" and l2: "\<forall>w\<in>set ws2. lowercased w"
  shows "\<exists>c. cosineSimilarity (calculateTFIDF ws1 df n) (calculateTFIDF ws2 df n) = Num c"
proof -
  let ?v1 = "calculateTFIDF ws1 df n" and ?v2 = "calculateTFIDF ws2 df n"
  have aw: "set (allWords ?v1 ?v2) = set (ownKeys ws1) \<union> set (ownKeys ws2)"
    by (simp add: set_allWords keys_set_calculateTFIDF)
  consider "dirty ws1" | "dirty ws2" | "\<not> dirty ws1" "\<not> dirty ws2" by blast
  then show ?thesis
  proof cases
    case 1
    have "\<forall>w\<in>set (allWords ?v1 ?v2). or0 (get ?v1 w) = Num 0"
      using dirty_side_zero [OF l1 l2 1] aw by blast
    then show ?thesis using cosine_norm1_zero by blast
  next
    case 2
    have "\<forall>w\<in>set (allWords ?v1 ?v2). or0 (get ?v2 w) = Num 0"
      using dirty_side_zero [OF l2 l1 2] aw by blast
    then show ?thesis using cosine_norm2_zero by blast
  next
    case 3
    have "\<forall>w\<in>set (allWords ?v1 ?v2). get ?v1 w \<noteq> Inherited \<and> get ?v2 w \<noteq> Inherited"
    proof
      fix w assume "w \<in> set (allWords ?v1 ?v2)"
      then have "w \<in> set (ownKeys ws1) \<union> set (ownKeys ws2)" using aw by simp
      then have "w \<notin> set objectPrototype" using 3 by (auto simp add: dirty_def)
      then show "get ?v1 w \<noteq> Inherited \<and> get ?v2 w \<noteq> Inherited"
        by (simp add: get_not_Inherited)
    qed
    from cosine_numeric [OF this] show ?thesis by (auto simp add: Let_def)
  qed
qed

section \<open>Scores are numbers when the timestamps are\<close>

lemma similarity_scoreSession:
  "similarity (scoreSession c df n kws nowDays nowHours s) =
    cosineSimilarity c (calculateTFIDF kws df n)"
  by (simp add: scoreSession_def Let_def)

lemma conversationBonus_scoreSession:
  "conversationBonus (scoreSession c df n kws nowDays nowHours s) =
    (if hasConversations s then Num 0.15 else Num 0)"
  by (simp add: scoreSession_def Let_def)

lemma score_scoreSession:
  "score (scoreSession c df n kws nowDays nowHours s) =
    Math_min (preClamp (scoreSession c df n kws nowDays nowHours s)) (Num 1.0)"
  by (simp add: scoreSession_def Let_def preClamp_def)

lemma similarity_scores_numeric:
  assumes "i < length sessions"
  shows "\<exists>c. similarity (scores ctx sessions clock ! i) = Num c"
  using assms
  by (simp add: scores_nth similarity_scoreSession similarity_numeric
      lowercased_contextKeywords lowercased_extractSessionKeywords)

lemma timeWeight_scores_numeric:
  assumes "i < length sessions" and "date (sessions ! i) = Some t"
  shows "\<exists>w. timeWeight (scores ctx sessions clock ! i) = Num w"
  using assms by (simp add: timeWeight_scores decay_def)

lemma conversationBonus_scores:
  assumes "i < length sessions"
  shows "conversationBonus (scores ctx sessions clock ! i) =
    (if hasConversations (sessions ! i) then Num 0.15 else Num 0)"
  using assms by (simp add: scores_nth conversationBonus_scoreSession)

lemma score_scores:
  assumes "i < length sessions"
  shows "score (scores ctx sessions clock ! i) =
    Math_min (preClamp (scores ctx sessions clock ! i)) (Num 1.0)"
  using assms by (simp add: scores_nth score_scoreSession)

lemma score_scores_numeric:
  assumes "i < length sessions" and "date (sessions ! i) = Some t"
  shows "\<exists>x. score (scores ctx sessions clock ! i) = Num x"
proof -
  obtain c where c: "similarity (scores ctx sessions clock ! i) = Num c"
    using similarity_scores_numeric [OF assms(1)] by blast
  obtain w where w: "timeWeight (scores ctx sessions clock ! i) = Num w"
    using timeWeight_scores_numeric [OF assms] by blast
  show ?thesis
    using c w assms(1)
    by (simp add: score_scores preClamp_def finalScore_def conversationBonus_scores)
qed

lemma scores_all_numeric:
  assumes "\<forall>s\<in>set sessions. date s \<noteq> None"
  shows "\<forall>e\<in>set (scores ctx sessions clock). score e \<noteq> NaN"
proof
  fix e assume "e \<in> set (scores ctx sessions clock)"
  then obtain i where i: "i < length sessions" and e: "e = scores ctx sessions clock ! i"
    by (auto simp add: in_set_conv_nth length_scores)
  from i have "sessions ! i \<in> set sessions" by simp
  with assms obtain t where "date (sessions ! i) = Some t" by auto
  from score_scores_numeric [OF i this, of ctx clock] e show "score e \<noteq> NaN" by auto
qed

section \<open>The conversation bonus\<close>






section \<open>The order of the ranking\<close>

lemma insertSorted_insort_key:
  assumes "score x \<noteq> NaN" and "\<forall>e\<in>set ys. score e \<noteq> NaN"
  shows "insertSorted compareScores x ys = insort_key (\<lambda>e. - theReal (score e)) x ys"
  using assms
proof (induction ys)
  case Nil
  then show ?case by simp
next
  case (Cons y ys)
  obtain a b where "score x = Num a" "score y = Num b"
    using Cons.prems by (cases "score x"; cases "score y") auto
  with Cons show ?case by (simp add: compareScores_def)
qed

lemma sortBy_sort_key:
  assumes "\<forall>e\<in>set xs. score e \<noteq> NaN"
  shows "sortBy compareScores xs = sort_key (\<lambda>e. - theReal (score e)) xs"
  using assms
proof (induction xs)
  case Nil
  then show ?case by (simp add: sortBy_def)
next
  case (Cons x xs)
  then have "sortBy compareScores xs = sort_key (\<lambda>e. - theReal (score e)) xs" by simp
  moreover have "\<forall>e\<in>set (sort_key (\<lambda>e. - theReal (score e)) xs). score e \<noteq> NaN"
    using Cons.prems by simp
  ultimately show ?case
    using Cons.prems insertSorted_insort_key [of x "sort_key (\<lambda>e. - theReal (score e)) xs"]
    by (simp add: sortBy_def)
qed

lemma nonIncreasing_sorted:
  assumes "\<forall>e\<in>set xs. score e \<noteq> NaN" and "sorted (map (\<lambda>e. - theReal (score e)) xs)"
  shows "nonIncreasing xs"
  using assms
proof (induction xs rule: nonIncreasing.induct)
  case (1 a b rest)
  obtain x y where "score a = Num x" "score b = Num y"
    using "1.prems" by (cases "score a"; cases "score b") auto
  with 1 show ?case by simp
qed simp_all

lemma sorted_when_numeric:
  fixes xs :: "'a scored list"
  assumes "\<forall>e\<in>set xs. score e \<noteq> NaN"
  shows "nonIncreasing (sortBy compareScores xs)
       \<and> (\<forall>v. filter (\<lambda>e. score e = v) (sortBy compareScores xs) = filter (\<lambda>e. score e = v) xs)"
proof -
  let ?f = "\<lambda>e. - theReal (score e)"
  have eq: "sortBy compareScores xs = sort_key ?f xs"
    using assms by (rule sortBy_sort_key)
  have num: "\<forall>e\<in>set (sort_key ?f xs). score e \<noteq> NaN" using assms by simp
  have "nonIncreasing (sort_key ?f xs)"
    using num by (rule nonIncreasing_sorted) simp
  moreover have "filter (\<lambda>e. score e = v) (sort_key ?f xs) = filter (\<lambda>e. score e = v) xs" for v
  proof (cases v)
    case (Num r)
    have a: "filter (\<lambda>e. score e = v) ys = filter (\<lambda>e. ?f e = - r) ys"
      if num_ys: "\<forall>e\<in>set ys. score e \<noteq> NaN" for ys :: "'a scored list"
    proof (rule filter_cong)
      fix e assume "e \<in> set ys"
      then obtain x where "score e = Num x" using num_ys by (cases "score e") auto
      then show "(score e = v) = (?f e = - r)" using Num by simp
    qed simp
    show ?thesis
      using a [OF num] a [OF assms] sort_key_stable [of ?f "- r" xs] by simp
  next
    case NaN
    have a: "filter (\<lambda>e. score e = v) ys = []" if "\<forall>e\<in>set ys. score e \<noteq> NaN"
      for ys :: "'a scored list"
      using that NaN by (simp add: filter_empty_conv)
    show ?thesis using a [OF num] a [OF assms] by simp
  qed
  ultimately show ?thesis using eq by simp
qed

text \<open>
  Claim C8, as stated, fails: a session without a parseable timestamp has the score
  \<^verbatim>\<open>NaN\<close>, and neither \<^verbatim>\<open>NaN >= x\<close> nor \<^verbatim>\<open>x >= NaN\<close> holds. For a corpus of two
  sessions, one of them without a timestamp, the ranking is not in non-increasing order,
  and the other arrangement of its two entries is not either.
\<close>

theorem ranking_order_counterexample:
  "\<not> nonIncreasing (calculateRelevanceScores \<lparr> cwd = None, recentFiles = None \<rparr>
      [\<lparr> date = None, summary = None, conversations = None, observations = None \<rparr>,
       \<lparr> date = Some 0, summary = None, conversations = None, observations = None \<rparr>]
      (frozenClock 0))
   \<and> \<not> nonIncreasing (rev (calculateRelevanceScores \<lparr> cwd = None, recentFiles = None \<rparr>
      [\<lparr> date = None, summary = None, conversations = None, observations = None \<rparr>,
       \<lparr> date = Some 0, summary = None, conversations = None, observations = None \<rparr>]
      (frozenClock 0)))"
  by (simp add: calculateRelevanceScores_def scores_def scoreSession_def contextKeywords_def
      extractSessionKeywords_def hasConversations_def decay_def finalScore_def sortBy_def
      compareScores_def calculateTFIDF_def calculateTF_def calculateDF_def maxFreq_def
      cosineSimilarity_def Let_def frozenClock_def)

text \<open>
  Claim C8, amended. For every context and every corpus in which every session has a
  parseable timestamp, the ranking is in non-increasing order of score, and entries of
  equal score keep the order their sessions have in the corpus: for every value, the
  entries with that score are, in the ranking, in the same order as in the array built in
  corpus order.
\<close>

theorem ranking_sorted_and_stable:
  assumes "\<forall>s\<in>set sessions. date s \<noteq> None"
  shows "nonIncreasing (calculateRelevanceScores ctx sessions clock)
       \<and> (\<forall>v. filter (\<lambda>e. score e = v) (calculateRelevanceScores ctx sessions clock)
              = filter (\<lambda>e. score e = v) (scores ctx sessions clock))"
proof (cases "sessions = []")
  case True
  then show ?thesis by (simp add: calculateRelevanceScores_def scores_def)
next
  case False
  then show ?thesis
    using sorted_when_numeric [OF scores_all_numeric [OF assms], of ctx clock]
    by (simp add: calculateRelevanceScores_def)
qed

theorem ranking_sorted_and_stable_witness:
  "nonIncreasing (calculateRelevanceScores \<lparr> cwd = None, recentFiles = None \<rparr>
      [\<lparr> date = Some 0, summary = None, conversations = None, observations = None \<rparr>,
       \<lparr> date = Some 3600000, summary = None, conversations = None, observations = None \<rparr>,
       \<lparr> date = Some 0, summary = None, conversations = None, observations = Some [] \<rparr>]
      (frozenClock 7200000))
   \<and> filter (\<lambda>e. score e = Num (69 / 160))
        (calculateRelevanceScores \<lparr> cwd = None, recentFiles = None \<rparr>
          [\<lparr> date = Some 0, summary = None, conversations = None, observations = None \<rparr>,
           \<lparr> date = Some 3600000, summary = None, conversations = None, observations = None \<rparr>,
           \<lparr> date = Some 0, summary = None, conversations = None, observations = Some [] \<rparr>]
          (frozenClock 7200000))
     = filter (\<lambda>e. score e = Num (69 / 160))
        (scores \<lparr> cwd = None, recentFiles = None \<rparr>
          [\<lparr> date = Some 0, summary = None, conversations = None, observations = None \<rparr>,
           \<lparr> date = Some 3600000, summary = None, conversations = None, observations = None \<rparr>,
           \<lparr> date = Some 0, summary = None, conversations = None, observations = Some [] \<rparr>]
          (frozenClock 7200000))"
proof -
  have h: "\<forall>s\<in>set
      [\<lparr> date = Some 0, summary = None, conversations = None, observations = None \<rparr>,
       \<lparr> date = Some 3600000, summary = None, conversations = None, observations = None \<rparr>,
       \<lparr> date = Some 0, summary = None, conversations = None, observations = Some [] \<rparr>].
      date s \<noteq> None"
    by simp
  from ranking_sorted_and_stable [OF h, of "\<lparr> cwd = None, recentFiles = None \<rparr>" "frozenClock 7200000"]
  show ?thesis by blast
qed

section \<open>Term frequency, away from the prototype\<close>

text \<open>
  For words none of which names a property of \<^verbatim>\<open>Object.prototype\<close>, the vector of
  \<^verbatim>\<open>calculateTF\<close> holds, for every distinct word, its count divided by the largest count:
  a value in \<open>(0, 1]\<close>, and 1 for a most frequent word.
\<close>

lemma count_pos: "w \<in> set ws \<Longrightarrow> 0 < count_list ws w"
  using count_list_0_iff [of ws w] by auto

lemma calculateTF_clean:
  assumes "\<not> dirty ws"
  shows "calculateTF ws =
    map (\<lambda>k. (k, Num (real (count_list ws k) / real (maxCount ws)))) (ownKeys ws)"
  using assms by (simp add: calculateTF_cases dirty_def)

lemma calculateTF_bounds:
  assumes "\<not> dirty ws"
  shows "(\<forall>(w, v) \<in> set (calculateTF ws). \<exists>x. v = Num x \<and> 0 < x \<and> x \<le> 1)
       \<and> (ownKeys ws \<noteq> [] \<longrightarrow> (\<exists>w. (w, Num 1) \<in> set (calculateTF ws)))"
proof -
  have m: "0 < real (maxCount ws)" using maxCount_pos [of ws] by simp
  have "0 < real (count_list ws k) / real (maxCount ws)
      \<and> real (count_list ws k) / real (maxCount ws) \<le> 1" if "k \<in> set (ownKeys ws)" for k
  proof -
    have "0 < count_list ws k" using that by (simp add: set_ownKeys count_pos)
    moreover have "count_list ws k \<le> maxCount ws" using that by (rule maxCount_ge)
    ultimately show ?thesis using m by simp
  qed
  then have a: "\<forall>(w, v) \<in> set (calculateTF ws). \<exists>x. v = Num x \<and> 0 < x \<and> x \<le> 1"
    by (auto simp add: calculateTF_clean [OF assms])
  have b: "\<exists>w. (w, Num 1) \<in> set (calculateTF ws)" if ne: "ownKeys ws \<noteq> []"
  proof -
    obtain k where k: "k \<in> set (ownKeys ws)" "count_list ws k = maxCount ws"
      using maxCount_attained [OF ne] by blast
    then have "(k, Num (real (count_list ws k) / real (maxCount ws))) \<in> set (calculateTF ws)"
      by (simp add: calculateTF_clean [OF assms] image_iff)
    then show ?thesis using k m by auto
  qed
  from a b show ?thesis by blast
qed

lemma calculateTF_Nil: "calculateTF [] = []"
  by (simp add: calculateTF_def maxFreq_def)

lemma map_of_calculateTFIDF:
  "map_of (calculateTFIDF ws df n) t =
    (case map_of (calculateTF ws) t of
       None \<Rightarrow> None
     | Some v \<Rightarrow> Some (jsmul v (idf (incr (get df t)) n)))"
proof -
  have "map_of (map (\<lambda>(w, t). (w, jsmul t (idf (incr (get df w)) n))) kvs) t =
    (case map_of kvs t of
       None \<Rightarrow> None
     | Some v \<Rightarrow> Some (jsmul v (idf (incr (get df t)) n)))" for kvs
    by (induction kvs) auto
  then show ?thesis unfolding calculateTFIDF_map .
qed

section \<open>TF-IDF, away from the prototype\<close>

lemma idf_positive:
  assumes "d \<le> n"
  shows "0 < ln ((real n + 1) / (real d + 1)) + 1"
proof -
  have "1 \<le> (real n + 1) / (real d + 1)" using assms by simp
  then have "0 \<le> ln ((real n + 1) / (real d + 1))" by (rule ln_ge_zero)
  then show ?thesis by linarith
qed

lemma calculateTFIDF_formula:
  assumes clean: "\<not> dirty ws" and t: "t \<in> set (ownKeys ws)"
    and df: "map_of df t \<noteq> Some Junk"
  shows "map_of (calculateTFIDF ws df n) t =
           Some (Num (real (count_list ws t) / real (maxCount ws)
                      * (ln ((real n + 1) / (real (dfCount df t) + 1)) + 1)))
       \<and> (dfCount df t \<le> n \<longrightarrow>
            0 < real (count_list ws t) / real (maxCount ws)
                * (ln ((real n + 1) / (real (dfCount df t) + 1)) + 1))"
proof -
  have tf: "map_of (calculateTF ws) t = Some (Num (real (count_list ws t) / real (maxCount ws)))"
    using t by (simp add: calculateTF_clean [OF clean] map_of_tabulate)
  have np: "t \<notin> set objectPrototype" using clean t by (auto simp add: dirty_def)
  have "idf (incr (get df t)) n = Num (ln ((real n + 1) / (real (dfCount df t) + 1)) + 1)"
  proof (cases "map_of df t")
    case None
    then show ?thesis using np by (simp add: get_def dfCount_def)
  next
    case (Some v)
    then obtain d where "v = Count d" using df by (cases v) auto
    with Some show ?thesis by (simp add: get_def dfCount_def add.commute)
  qed
  then have 1: "map_of (calculateTFIDF ws df n) t =
           Some (Num (real (count_list ws t) / real (maxCount ws)
                      * (ln ((real n + 1) / (real (dfCount df t) + 1)) + 1)))"
    by (simp add: map_of_calculateTFIDF tf)
  have "0 < count_list ws t" using t by (simp add: set_ownKeys count_pos)
  then have "0 < real (count_list ws t) / real (maxCount ws)"
    using maxCount_pos [of ws] by simp
  then have 2: "0 < real (count_list ws t) / real (maxCount ws)
                * (ln ((real n + 1) / (real (dfCount df t) + 1)) + 1)"
    if "dfCount df t \<le> n"
    using idf_positive [OF that] by (rule mult_pos_pos)
  from 1 2 show ?thesis by blast
qed

lemma count_list_concat_uniqueWords:
  "count_list (concat (map uniqueWords docs)) t = length (filter (\<lambda>doc. t \<in> set doc) docs)"
proof (induction docs)
  case Nil
  then show ?case by simp
next
  case (Cons doc docs)
  have "count_list xs t = (if t \<in> set xs then 1 else 0)" if "distinct xs" for xs
    using that by (induction xs) auto
  from this [of "uniqueWords doc"]
  have "count_list (uniqueWords doc) t = (if t \<in> set doc then 1 else 0)" by simp
  with Cons show ?case by simp
qed

lemma calculateDF_count:
  assumes "t \<notin> set objectPrototype"
  shows "map_of (calculateDF docs) t \<noteq> Some Junk
       \<and> dfCount (calculateDF docs) t = length (filter (\<lambda>doc. t \<in> set doc) docs)"
proof -
  let ?h = "concat (map uniqueWords docs)"
  have "map_of (calculateDF docs) t =
      (if t \<in> set (filter (\<lambda>w. w \<noteq> ''__proto__'') (uniqueWords ?h))
       then Some (Count (count_list ?h t)) else None)"
    using assms by (simp add: calculateDF_counted counted_def map_of_tabulate)
  moreover have "count_list ?h t = 0" if "t \<notin> set ?h"
    using that by (simp add: count_list_0_iff)
  moreover have "t \<noteq> ''__proto__''" using assms proto_in_prototype by auto
  ultimately show ?thesis
    using count_list_concat_uniqueWords [of docs t]
    by (auto simp add: dfCount_def split: if_splits)
qed

lemma calculateDF_bounded:
  assumes "t \<notin> set objectPrototype"
  shows "dfCount (calculateDF docs) t \<le> length docs"
  using calculateDF_count [OF assms, of docs] by simp

section \<open>Cosine similarity, away from the prototype\<close>

lemma cs_step:
  fixes A B D x y :: real
  assumes "D\<^sup>2 \<le> A * B" and "0 \<le> A" and "0 \<le> B"
  shows "(D + x * y)\<^sup>2 \<le> (A + x * x) * (B + y * y)"
proof -
  have "(2 * D * x * y)\<^sup>2 = 4 * D\<^sup>2 * (x * y)\<^sup>2"
    by (simp add: power2_eq_square)
  also have "\<dots> \<le> 4 * (A * B) * (x * y)\<^sup>2"
    using assms(1) by (intro mult_right_mono mult_left_mono) simp_all
  also have "\<dots> \<le> (A * y\<^sup>2 + B * x\<^sup>2)\<^sup>2"
  proof -
    have "0 \<le> (A * y\<^sup>2 - B * x\<^sup>2)\<^sup>2" by simp
    also have "(A * y\<^sup>2 - B * x\<^sup>2)\<^sup>2 = (A * y\<^sup>2 + B * x\<^sup>2)\<^sup>2 - 4 * (A * B) * (x * y)\<^sup>2"
      by (simp add: power2_eq_square algebra_simps)
    finally show ?thesis by simp
  qed
  finally have "(2 * D * x * y)\<^sup>2 \<le> (A * y\<^sup>2 + B * x\<^sup>2)\<^sup>2" .
  moreover have "0 \<le> A * y\<^sup>2 + B * x\<^sup>2" using assms(2,3) by simp
  ultimately have "2 * D * x * y \<le> A * y\<^sup>2 + B * x\<^sup>2"
    by (rule power2_le_imp_le)
  moreover have "(D + x * y)\<^sup>2 = D\<^sup>2 + 2 * D * x * y + (x * y)\<^sup>2"
    by (simp add: power2_eq_square algebra_simps)
  moreover have "(A + x * x) * (B + y * y) = A * B + (A * y\<^sup>2 + B * x\<^sup>2) + (x * y)\<^sup>2"
    by (simp add: power2_eq_square algebra_simps)
  ultimately show ?thesis using assms(1) by linarith
qed

lemma sum_squares_nonneg: "0 \<le> (\<Sum>w\<leftarrow>ws. (a w :: real) * a w)"
  by (induction ws) simp_all

lemma cauchy_schwarz_list:
  fixes a b :: "'k \<Rightarrow> real"
  shows "(\<Sum>w\<leftarrow>ws. a w * b w)\<^sup>2 \<le> (\<Sum>w\<leftarrow>ws. a w * a w) * (\<Sum>w\<leftarrow>ws. b w * b w)"
proof (induction ws)
  case Nil
  then show ?case by simp
next
  case (Cons w ws)
  have "(a w * b w + (\<Sum>w\<leftarrow>ws. a w * b w))\<^sup>2 = ((\<Sum>w\<leftarrow>ws. a w * b w) + a w * b w)\<^sup>2"
    by (simp add: add.commute)
  also have "\<dots> \<le> ((\<Sum>w\<leftarrow>ws. a w * a w) + a w * a w) * ((\<Sum>w\<leftarrow>ws. b w * b w) + b w * b w)"
    using Cons.IH sum_squares_nonneg [of a ws] sum_squares_nonneg [of b ws] by (rule cs_step)
  finally show ?case by (simp add: add.commute)
qed

lemma quotient_le_one:
  fixes d c :: real
  assumes "d \<le> c" and "0 \<le> c"
  shows "d / c \<le> 1"
  using assms by (cases "c = 0") simp_all

lemma cosine_le_one:
  fixes a b :: "'k \<Rightarrow> real"
  assumes "0 \<le> (\<Sum>w\<leftarrow>ws. a w * b w)"
  shows "(\<Sum>w\<leftarrow>ws. a w * b w) / (sqrt (\<Sum>w\<leftarrow>ws. a w * a w) * sqrt (\<Sum>w\<leftarrow>ws. b w * b w)) \<le> 1"
proof -
  let ?D = "\<Sum>w\<leftarrow>ws. a w * b w" and ?A = "\<Sum>w\<leftarrow>ws. a w * a w" and ?B = "\<Sum>w\<leftarrow>ws. b w * b w"
  have "sqrt (?D\<^sup>2) \<le> sqrt (?A * ?B)"
    using cauchy_schwarz_list [of a b ws] by (simp only: real_sqrt_le_iff)
  then have le: "?D \<le> sqrt ?A * sqrt ?B"
    using assms by (simp add: real_sqrt_mult)
  have nn: "0 \<le> sqrt ?A * sqrt ?B"
    using sum_squares_nonneg [of a ws] sum_squares_nonneg [of b ws] by simp
  from le nn show ?thesis by (rule quotient_le_one)
qed

lemma entry_nonneg:
  assumes "\<forall>(w, v) \<in> set vec. \<exists>x. v = Num x \<and> 0 \<le> x"
  shows "0 \<le> entry vec w"
proof (cases "map_of vec w")
  case None
  then show ?thesis by (simp add: entry_def get_def)
next
  case (Some v)
  then have "(w, v) \<in> set vec" by (rule map_of_SomeD)
  with assms obtain x where "v = Num x" "0 \<le> x" by auto
  with Some show ?thesis by (simp add: entry_def get_def)
qed

lemma clean_keys_not_Inherited:
  assumes "\<forall>w\<in>set (allWords vec1 vec2). w \<notin> set objectPrototype"
  shows "\<forall>w\<in>set (allWords vec1 vec2). get vec1 w \<noteq> Inherited \<and> get vec2 w \<noteq> Inherited"
  using assms by (simp add: get_not_Inherited)

lemma cosine_bounds_clean:
  assumes keys: "\<forall>w\<in>set (allWords vec1 vec2). w \<notin> set objectPrototype"
    and nn1: "\<forall>(w, v) \<in> set vec1. \<exists>x. v = Num x \<and> 0 \<le> x"
    and nn2: "\<forall>(w, v) \<in> set vec2. \<exists>x. v = Num x \<and> 0 \<le> x"
  shows "\<exists>c. cosineSimilarity vec1 vec2 = Num c \<and> 0 \<le> c \<and> c \<le> 1"
proof -
  let ?ws = "allWords vec1 vec2"
  let ?D = "\<Sum>w\<leftarrow>?ws. entry vec1 w * entry vec2 w"
  let ?A = "\<Sum>w\<leftarrow>?ws. entry vec1 w * entry vec1 w"
  let ?B = "\<Sum>w\<leftarrow>?ws. entry vec2 w * entry vec2 w"
  have D: "0 \<le> ?D"
    by (rule sum_list_nonneg) (auto simp add: entry_nonneg [OF nn1] entry_nonneg [OF nn2])
  have "0 \<le> sqrt ?A * sqrt ?B"
    using sum_squares_nonneg [of "entry vec1" ?ws] sum_squares_nonneg [of "entry vec2" ?ws]
    by simp
  with D have lo: "0 \<le> ?D / (sqrt ?A * sqrt ?B)" by (rule divide_nonneg_nonneg)
  have hi: "?D / (sqrt ?A * sqrt ?B) \<le> 1" using D by (rule cosine_le_one)
  show ?thesis
    unfolding cosine_numeric [OF clean_keys_not_Inherited [OF keys]] Let_def
    using lo hi by simp
qed

lemma cosine_zero_norm_clean:
  assumes keys: "\<forall>w\<in>set (allWords vec1 vec2). w \<notin> set objectPrototype"
    and zero: "(\<Sum>w\<leftarrow>allWords vec1 vec2. entry vec1 w * entry vec1 w) = 0
             \<or> (\<Sum>w\<leftarrow>allWords vec1 vec2. entry vec2 w * entry vec2 w) = 0"
  shows "cosineSimilarity vec1 vec2 = Num 0"
  unfolding cosine_numeric [OF clean_keys_not_Inherited [OF keys]] Let_def
  using zero by simp

lemma cosine_empty_clean:
  assumes "\<forall>w\<in>fst ` set vec. w \<notin> set objectPrototype"
  shows "cosineSimilarity [] vec = Num 0"
proof -
  have keys: "\<forall>w\<in>set (allWords [] vec). w \<notin> set objectPrototype"
    using assms by (simp add: allWords_def)
  have "entry [] w = 0" if "w \<notin> set objectPrototype" for w
    using that by (simp add: entry_def get_def)
  then have "map (\<lambda>w. entry [] w * entry [] w) (allWords [] vec) = map (\<lambda>w. 0) (allWords [] vec)"
    using keys by simp
  then have "(\<Sum>w\<leftarrow>allWords [] vec. entry [] w * entry [] w) = (\<Sum>w\<leftarrow>allWords [] vec. 0)"
    by (simp only:)
  then have "(\<Sum>w\<leftarrow>allWords [] vec. entry [] w * entry [] w) = 0" by simp
  then show ?thesis using cosine_zero_norm_clean [OF keys] by blast
qed

lemma cosine_self_clean:
  assumes keys: "\<forall>w\<in>fst ` set vec. w \<notin> set objectPrototype"
    and nonzero: "\<exists>w\<in>fst ` set vec. entry vec w \<noteq> 0"
  shows "cosineSimilarity vec vec = Num 1"
proof -
  let ?ws = "allWords vec vec"
  let ?A = "\<Sum>w\<leftarrow>?ws. entry vec w * entry vec w"
  have k: "\<forall>w\<in>set ?ws. w \<notin> set objectPrototype" using keys by (simp add: allWords_def)
  obtain w where w: "w \<in> set ?ws" "entry vec w \<noteq> 0"
    using nonzero by (auto simp add: allWords_def)
  have "0 < ?A"
  proof -
    have "entry vec w * entry vec w \<le> ?A"
      using w(1) by (intro member_le_sum_list) auto
    moreover have "0 < entry vec w * entry vec w" using w(2) by (auto simp add: zero_less_mult_iff)
    ultimately show ?thesis by linarith
  qed
  then have "?A / (sqrt ?A * sqrt ?A) = 1" by simp
  then show ?thesis
    unfolding cosine_numeric [OF clean_keys_not_Inherited [OF k]] Let_def
    using \<open>0 < ?A\<close> by simp
qed

section \<open>The plain objects and the prototype\<close>

text \<open>
  Claim C6 (every value of the term-frequency vector of a non-empty token sequence lies
  in \<open>(0, 1]\<close> and one value is 1) does not hold of the code. The text
  \<^verbatim>\<open>fix constructor\<close> gives the tokens \<^verbatim>\<open>fix\<close> and \<^verbatim>\<open>constructor\<close>;
  \<^verbatim>\<open>tf['constructor']\<close> reads the inherited function, \<^verbatim>\<open>+ 1\<close> makes a string of it,
  \<^verbatim>\<open>Math.max\<close> of the values is \<^verbatim>\<open>NaN\<close>, and every value of the vector becomes
  \<^verbatim>\<open>NaN\<close>.
\<close>

theorem term_frequency_constructor:
  "extractKeywords (Some ''fix constructor'') = [''fix'', ''constructor'']
   \<and> calculateTF [''fix'', ''constructor''] = [(''fix'', NaN), (''constructor'', NaN)]"
proof -
  have "extractKeywords (Some ''fix constructor'') = [''fix'', ''constructor'']"
    by (simp add: keepKeyword_def trim_def toLowerCase_def toLowerChar_def isWord_def
        isDigit_def isSpace_def isLower_def isUpper_def STOPWORDS_def)
  moreover have "calculateTF [''fix'', ''constructor''] = [(''fix'', NaN), (''constructor'', NaN)]"
    by (simp add: calculateTF_def bump_def get_def put_def objectPrototype_def maxFreq_def)
  ultimately show ?thesis by (simp only: simp_thms)
qed

text \<open>
  Claim C7 (every TF-IDF weight is the product of the term frequency and the smoothed
  inverse document frequency, and is strictly positive when the table was built from the
  \<open>N\<close> documents) does not hold of the code. For the one document \<^verbatim>\<open>constructor\<close>,
  with the table built from it and \<open>N = 1\<close>, the table holds a string for the word and
  the weight is \<^verbatim>\<open>NaN\<close>.
\<close>

theorem tfidf_constructor:
  "calculateDF [[''constructor'']] = [(''constructor'', Junk)]
   \<and> calculateTFIDF [''constructor''] (calculateDF [[''constructor'']]) 1
       = [(''constructor'', NaN)]"
  by (simp add: calculateTFIDF_def calculateTF_def calculateDF_def bump_def get_def put_def
      objectPrototype_def maxFreq_def)

text \<open>
  Claim C5 (the cosine of two vectors with non-negative entries lies in \<open>[0, 1]\<close>, and is
  exactly 0 when a vector is empty) does not hold of the code. For the empty vector and
  the vector with the one entry \<^verbatim>\<open>constructor: 1\<close>, the lookup of the word in the empty
  vector gives the inherited function, the sums become \<^verbatim>\<open>NaN\<close>, the guard
  \<^verbatim>\<open>norm1 === 0\<close> is false, and the result is \<^verbatim>\<open>NaN\<close>.
\<close>

theorem cosine_constructor:
  "cosineSimilarity [] [(''constructor'', Num 1)] = NaN
   \<and> cosineSimilarity [(''login'', Num 1)] [(''constructor'', Num 1)] = NaN"
  by (simp add: cosineSimilarity_def accumulate_def get_def objectPrototype_def Let_def)

section \<open>The path tokenizer\<close>

lemma pathWords_filtered:
  "w \<in> set (pathWords part) \<Longrightarrow> 2 \<le> length w \<and> w \<notin> set STOPWORDS"
  by (auto simp add: pathWords_def)

lemma extractPathKeywords_filtered:
  "w \<in> set (extractPathKeywords p) \<Longrightarrow> 2 \<le> length w \<and> w \<notin> set STOPWORDS"
  by (cases p) (auto simp add: Let_def dest: pathWords_filtered split: if_splits)

lemma extractKeywords_kept: "w \<in> set (extractKeywords t) \<Longrightarrow> keepKeyword w"
  by (cases t) (auto simp add: Let_def split: if_splits)

lemma path_2024: "extractPathKeywords (Some ''/logs/2024'') = [''logs'', ''2024'']"
  by (simp add: pathWords_def stripExtension_def toLowerCase_def toLowerChar_def
      isSeparator_def isSpace_def isLower_def isUpper_def STOPWORDS_def)

text \<open>
  Claim C10. Every token of the path tokenizer has at least 2 characters and is not a
  stopword. The tokenizer has no filter for digits: the path \<^verbatim>\<open>/logs/2024\<close> gives the
  token \<^verbatim>\<open>2024\<close>, all digits, whereas the text tokenizer never returns a token that is
  all digits.
\<close>

theorem path_keywords_filtered:
  "(\<forall>w \<in> set (extractPathKeywords p). 2 \<le> length w \<and> w \<notin> set STOPWORDS)
   \<and> ''2024'' \<in> set (extractPathKeywords (Some ''/logs/2024''))
   \<and> list_all isDigit ''2024''
   \<and> (\<forall>w \<in> set (extractKeywords t). \<not> list_all isDigit w)"
proof -
  have "\<not> list_all isDigit w" if "w \<in> set (extractKeywords t)" for w
    using extractKeywords_kept [OF that] by (auto simp add: keepKeyword_def split: if_splits)
  moreover have "''2024'' \<in> set (extractPathKeywords (Some ''/logs/2024''))"
    unfolding path_2024 by simp
  moreover have "list_all isDigit ''2024''"
    by (simp add: isDigit_def)
  ultimately show ?thesis
    using extractPathKeywords_filtered [of _ p] by blast
qed

theorem path_keywords_filtered_witness:
  "2 \<le> length ''2024'' \<and> ''2024'' \<notin> set STOPWORDS
   \<and> ''2024'' \<in> set (extractPathKeywords (Some ''/logs/2024''))"
proof -
  note c = path_keywords_filtered [of "Some ''/logs/2024''" None]
  from c have m: "''2024'' \<in> set (extractPathKeywords (Some ''/logs/2024''))" by blast
  from c have "\<forall>w \<in> set (extractPathKeywords (Some ''/logs/2024'')). 2 \<le> length w \<and> w \<notin> set STOPWORDS"
    by blast
  from bspec [OF this m] m show ?thesis by blast
qed

end
